theory Spec2Isabelle
  imports Complex_Main
begin

section \<open>Strings\<close>

text \<open>
  A JavaScript string is a sequence of UTF-16 code units. The model uses \<^typ>\<open>string\<close>,
  that is, code units below 256 (the Latin-1 range); \<open>length\<close> is the number of code
  units, as \<open>String.prototype.length\<close> is. Token counts and telemetry values are
  JavaScript numbers holding integers and are modelled as \<^typ>\<open>int\<close>; prices and costs are
  modelled as \<^typ>\<open>real\<close> (the rounding of IEEE doubles is not modelled).
\<close>

text \<open>The code units below 256 that \<open>String.prototype.trim\<close> removes: TAB, LF, VT, FF,
  CR, SPACE and NO-BREAK SPACE.\<close>

definition isWhiteSpace :: "char \<Rightarrow> bool" where
  "isWhiteSpace c = ((of_char c :: nat) \<in> {9, 10, 11, 12, 13, 32, 160})"

definition trim :: "string \<Rightarrow> string" where
  "trim s = rev (dropWhile isWhiteSpace (rev (dropWhile isWhiteSpace s)))"

text \<open>\<open>String.prototype.toLowerCase\<close> on code units below 256: A-Z and the Latin-1
  capitals (U+00C0 to U+00DE, without the multiplication sign U+00D7) move up by 32.\<close>

definition toLowerCaseChar :: "char \<Rightarrow> char" where
  "toLowerCaseChar c =
     (let n = (of_char c :: nat) in
      if (65 \<le> n \<and> n \<le> 90) \<or> (192 \<le> n \<and> n \<le> 222 \<and> n \<noteq> 215)
      then char_of (n + 32) else c)"

definition toLowerCase :: "string \<Rightarrow> string" where
  "toLowerCase s = map toLowerCaseChar s"

text \<open>\<open>s.startsWith(p)\<close>.\<close>

definition startsWith :: "string \<Rightarrow> string \<Rightarrow> bool" where
  "startsWith s p = (take (length p) s = p)"

text \<open>The regular-expression classes \<open>\s\<close> (the same code units as \<open>trim\<close> removes),
  \<open>\w\<close> and the line terminators that \<open>.\<close> does not match.\<close>

definition isLineTerminator :: "char \<Rightarrow> bool" where
  "isLineTerminator c = ((of_char c :: nat) \<in> {10, 13})"

definition isWordChar :: "char \<Rightarrow> bool" where
  "isWordChar c =
     (let n = (of_char c :: nat) in
      (48 \<le> n \<and> n \<le> 57) \<or> (65 \<le> n \<and> n \<le> 90) \<or> n = 95 \<or> (97 \<le> n \<and> n \<le> 122))"

text \<open>
  A \<open>Map\<close>, or a plain object used as a dictionary, is an association list in insertion
  order with each key once: \<^const>\<open>map_of\<close> reads it, and \<open>mapSet\<close> writes it as
  \<open>Map.prototype.set\<close> and property assignment do (a known key keeps its place, a new key
  goes last).
\<close>

definition mapSet :: "('k \<times> 'v) list \<Rightarrow> 'k \<Rightarrow> 'v \<Rightarrow> ('k \<times> 'v) list" where
  "mapSet m k v =
     (if k \<in> fst ` set m then map (\<lambda>e. if fst e = k then (k, v) else e) m
      else m @ [(k, v)])"

text \<open>\<open>xs.slice(0, end)\<close>: a negative \<open>end\<close> counts from the end of the array.\<close>

definition slice0 :: "int \<Rightarrow> 'a list \<Rightarrow> 'a list" where
  "slice0 end' xs =
     (if end' < 0 then take (nat (int (length xs) + end')) xs else take (nat end') xs)"

text \<open>\<open>Number(x) || 0\<close> for an optional numeric field.\<close>

definition numberOr0 :: "int option \<Rightarrow> int" where
  "numberOr0 x = (case x of None \<Rightarrow> 0 | Some n \<Rightarrow> n)"

section \<open>Tokenizer manager (tokenizer.ts)\<close>

text \<open>Class \<open>TokenizerManager\<close>, in \<open>src/plugin/tokenscope-lib/tokenizer.ts\<close>.\<close>

datatype TokenizerSpec = Tiktoken string | Transformers string | Approx

record TokenModel =
  tm_name :: string
  tm_spec :: TokenizerSpec

text \<open>
  The vendored tokenizer libraries are outside the repository. An encoder maps a content
  string to the length of its encoding, or to \<open>None\<close> when \<open>encode\<close> throws (or, for a
  transformers tokenizer, when the tokenizer has no \<open>encode\<close> function or the encoding has
  no length). Loading a tiktoken encoder can throw (the module is missing, or the fallback
  \<open>getEncoding("cl100k_base")\<close> throws), can find no \<open>getEncoding\<close> function, or can give an
  encoder; loading a transformers tokenizer gives \<open>null\<close> on any failure. The caches of
  \<open>TokenizerManager\<close> memoise these outcomes and change no result of \<open>countTokens\<close>, so they are left out
  here; the section on encoder loading below has them, call by call.
\<close>

type_synonym encoder = "string \<Rightarrow> nat option"

datatype tiktokenLoad = TiktokenThrows | TiktokenNoGetEncoding | TiktokenEncoder encoder

datatype transformersLoad = TransformersNull | TransformersTokenizer encoder

record vendor =
  loadTiktokenEncoder :: "string \<Rightarrow> tiktokenLoad"
  loadTransformersTokenizer :: "string \<Rightarrow> transformersLoad"

datatype backendUse = UseTiktoken string | UseTransformers string

definition approximateTokenCount :: "string \<Rightarrow> int" where
  "approximateTokenCount content = \<lceil>real (length content) / 4\<rceil>"

text \<open>\<open>countWithTiktoken\<close>: \<open>None\<close> is the exception that \<open>countTokens\<close> catches.\<close>

definition countWithTiktoken :: "vendor \<Rightarrow> string \<Rightarrow> string \<Rightarrow> int option" where
  "countWithTiktoken v content model =
     (case loadTiktokenEncoder v model of
        TiktokenThrows \<Rightarrow> None
      | TiktokenNoGetEncoding \<Rightarrow> Some \<lceil>real (length content) / 4\<rceil>
      | TiktokenEncoder encode \<Rightarrow>
          (case encode content of
             Some n \<Rightarrow> Some (int n)
           | None \<Rightarrow> Some (approximateTokenCount content)))"

definition countWithTransformers :: "vendor \<Rightarrow> string \<Rightarrow> string \<Rightarrow> int" where
  "countWithTransformers v content hub =
     (case loadTransformersTokenizer v hub of
        TransformersNull \<Rightarrow> approximateTokenCount content
      | TransformersTokenizer encode \<Rightarrow>
          (case encode content of
             Some n \<Rightarrow> int n
           | None \<Rightarrow> approximateTokenCount content))"

text \<open>\<open>countTokens\<close> returns the count together with the backends it went to.\<close>

definition countTokens :: "vendor \<Rightarrow> string \<Rightarrow> TokenModel \<Rightarrow> int \<times> backendUse list" where
  "countTokens v content model =
     (if trim content = [] then (0, [])
      else
        (case tm_spec model of
           Approx \<Rightarrow> (approximateTokenCount content, [])
         | Tiktoken m \<Rightarrow>
             ((case countWithTiktoken v content m of
                 Some n \<Rightarrow> n
               | None \<Rightarrow> approximateTokenCount content),
              [UseTiktoken m])
         | Transformers hub \<Rightarrow> (countWithTransformers v content hub, [UseTransformers hub])))"

text \<open>The value a caller gets from \<open>await tokenizerManager.countTokens(content, model)\<close>.\<close>

definition tokenCount :: "vendor \<Rightarrow> string \<Rightarrow> TokenModel \<Rightarrow> int" where
  "tokenCount v content model = fst (countTokens v content model)"

section \<open>Encoder loading, call by call (tokenizer.ts)\<close>

text \<open>
  \<open>loadTiktokenEncoder\<close> is an async function with one \<open>await\<close>. A call runs, without
  interruption, from the cache check to \<open>await this.loadTiktokenModule()\<close>; when it is
  resumed it runs, again without interruption, from there to its return, which loads the
  encoder and writes it to the cache. Other calls can run between the two parts. The state
  is the part of the \<open>TokenizerManager\<close> that the function reads and writes (the cache keys
  and whether the module promise is set), the number of module imports, the encoder loads
  so far by model, and the calls so far with where each stands. A load that ends in an
  exception is not counted.
\<close>

datatype loadPoint = AwaitingModule | Returned

record loaderState =
  tiktokenCache :: "string set"
  tiktokenModule :: bool
  moduleImports :: nat
  encoderLoads :: "string list"
  loaderCalls :: "(string \<times> loadPoint) list"

definition newLoader :: loaderState where
  "newLoader =
     \<lparr>tiktokenCache = {}, tiktokenModule = False, moduleImports = 0, encoderLoads = [],
      loaderCalls = []\<rparr>"

text \<open>\<open>loadTiktokenModule\<close> keeps the promise of the import, so the import starts once.\<close>

definition loadTiktokenModule :: "loaderState \<Rightarrow> loaderState" where
  "loadTiktokenModule s =
     (if \<not> tiktokenModule s
      then s\<lparr>tiktokenModule := True, moduleImports := moduleImports s + 1\<rparr>
      else s)"

text \<open>The first part of \<open>loadTiktokenEncoder(model)\<close>: return on a cache hit, otherwise wait
  for the module.\<close>

definition loadTiktokenEncoder_call :: "string \<Rightarrow> loaderState \<Rightarrow> loaderState" where
  "loadTiktokenEncoder_call m s =
     (if m \<in> tiktokenCache s then s\<lparr>loaderCalls := loaderCalls s @ [(m, Returned)]\<rparr>
      else (loadTiktokenModule s)\<lparr>loaderCalls := loaderCalls s @ [(m, AwaitingModule)]\<rparr>)"

text \<open>The second part, for the call with index \<open>i\<close>: without \<open>getEncoding\<close> the approximate
  encoder is returned and nothing is cached; otherwise the encoder is loaded
  (\<open>encodingForModel\<close>, or \<open>getEncoding("cl100k_base")\<close> when that throws) and cached.\<close>

definition loadTiktokenEncoder_resume :: "vendor \<Rightarrow> nat \<Rightarrow> loaderState \<Rightarrow> loaderState" where
  "loadTiktokenEncoder_resume v i s =
     (if i < length (loaderCalls s) \<and> snd (loaderCalls s ! i) = AwaitingModule
      then
        (let m = fst (loaderCalls s ! i);
             s' = s\<lparr>loaderCalls := (loaderCalls s)[i := (m, Returned)]\<rparr>
         in case loadTiktokenEncoder v m of
              TiktokenThrows \<Rightarrow> s'
            | TiktokenNoGetEncoding \<Rightarrow> s'
            | TiktokenEncoder encode \<Rightarrow>
                s'\<lparr>encoderLoads := encoderLoads s' @ [m],
                   tiktokenCache := insert m (tiktokenCache s')\<rparr>)
      else s)"

text \<open>
  A call of \<open>countTokens\<close> reaches the first part of \<open>loadTiktokenEncoder\<close> before its
  first \<open>await\<close> takes effect, when the content is not blank and the spec is a tiktoken one
  (through \<open>countWithTiktoken\<close>). A schedule is a list of events: a call of \<open>countTokens\<close>,
  or the resumption of a waiting call. The transformers loader is not part of this machine.
\<close>

datatype loaderEvent = CountTokens string TokenModel | Resume nat

definition countTokens_call :: "string \<Rightarrow> TokenModel \<Rightarrow> loaderState \<Rightarrow> loaderState" where
  "countTokens_call content tokenModel s =
     (if trim content = [] then s
      else
        (case tm_spec tokenModel of
           Tiktoken m \<Rightarrow> loadTiktokenEncoder_call m s
         | Transformers hub \<Rightarrow> s
         | Approx \<Rightarrow> s))"

definition loaderStep :: "vendor \<Rightarrow> loaderState \<Rightarrow> loaderEvent \<Rightarrow> loaderState" where
  "loaderStep v s e =
     (case e of
        CountTokens content tokenModel \<Rightarrow> countTokens_call content tokenModel s
      | Resume i \<Rightarrow> loadTiktokenEncoder_resume v i s)"

definition runLoader :: "vendor \<Rightarrow> loaderEvent list \<Rightarrow> loaderState" where
  "runLoader v events = foldl (loaderStep v) newLoader events"

section \<open>Session data (types.ts)\<close>

text \<open>The interfaces of \<open>types.ts\<close> (the second part of \<open>src/plugin/tokenscope.ts\<close>),
  with a prefix on the field names that several interfaces share.\<close>

record TokenUsage =
  tu_input :: "int option"
  tu_output :: "int option"
  tu_reasoning :: "int option"
  tu_cacheRead :: "int option"
  tu_cacheWrite :: "int option"

datatype ToolStatus = StatusPending | StatusRunning | StatusCompleted | StatusError

text \<open>Of \<open>state.input\<close> and \<open>state.metadata\<close> only the property \<open>name\<close> is read.\<close>

record ToolState =
  ts_status :: ToolStatus
  ts_inputName :: "string option"
  ts_output :: "string option"
  ts_title :: "string option"
  ts_metadataName :: "string option"

datatype SessionMessagePart =
    TextPart string
  | ReasoningPart string
  | ToolPart string ToolState
  | OtherPart string

record SessionMessage =
  mi_role :: string
  mi_modelID :: "string option"
  mi_providerID :: "string option"
  mi_system :: "string list option"
  mi_tokens :: "TokenUsage option"
  mi_cost :: "real option"
  parts :: "SessionMessagePart list"

record CategoryEntry =
  entry_label :: string
  entry_tokens :: int

record CategorySummary =
  cat_label :: string
  cat_totalTokens :: int
  cat_entries :: "CategoryEntry list"
  cat_allEntries :: "CategoryEntry list"

record Categories =
  system :: CategorySummary
  user :: CategorySummary
  assistant :: CategorySummary
  tools :: CategorySummary
  reasoning :: CategorySummary

record TokenAnalysis =
  sessionID :: string
  model :: TokenModel
  categories :: Categories
  totalTokens :: int
  inputTokens :: int
  outputTokens :: int
  reasoningTokens :: int
  cacheReadTokens :: int
  cacheWriteTokens :: int
  assistantMessageCount :: int
  mostRecentInput :: int
  mostRecentOutput :: int
  mostRecentReasoning :: int
  mostRecentCacheRead :: int
  mostRecentCacheWrite :: int
  sessionCost :: real
  mostRecentCost :: real
  allToolsCalled :: "string list"
  toolCallCounts :: "(string \<times> int) list"

record CategoryEntrySource =
  src_label :: string
  src_content :: string

section \<open>Cost calculator (cost.ts)\<close>

text \<open>Class \<open>CostCalculator\<close>, at the end of \<open>src/unnamed/part_004\<close>.\<close>

record ModelPricing =
  pr_input :: real
  pr_output :: real
  pr_cacheWrite :: real
  pr_cacheRead :: real

text \<open>
  The pricing data is a JavaScript object \<open>Record<string, ModelPricing>\<close>. The model is the
  list of its entries in the order \<open>Object.entries\<close> enumerates them; a key occurs once.
  Property lookup \<open>pricingData[k]\<close> is \<^const>\<open>map_of\<close>; every entry is an object and therefore
  truthy. (Names inherited from \<open>Object.prototype\<close> are not modelled.)
\<close>

type_synonym pricingData = "(string \<times> ModelPricing) list"

text \<open>\<open>modelName.split("/").pop()\<close>: the part after the last slash.\<close>

definition splitPop :: "string \<Rightarrow> string" where
  "splitPop s = rev (takeWhile (\<lambda>c. c \<noteq> CHR ''/'') (rev s))"

definition normalizeModelName :: "string \<Rightarrow> string" where
  "normalizeModelName modelName =
     (if CHR ''/'' \<in> set modelName
      then (if splitPop modelName \<noteq> [] then splitPop modelName else modelName)
      else modelName)"

text \<open>The \<open>for (const [key, pricing] of Object.entries(this.pricingData))\<close> loop of
  \<open>getPricing\<close>: it returns at the first key that the lower-cased name starts with.\<close>

fun prefixLoop :: "string \<Rightarrow> pricingData \<Rightarrow> ModelPricing option" where
  "prefixLoop lowerModel [] = None"
| "prefixLoop lowerModel ((key, pricing) # rest) =
     (if startsWith lowerModel (toLowerCase key) then Some pricing
      else prefixLoop lowerModel rest)"

definition fallbackPricing :: ModelPricing where
  "fallbackPricing = \<lparr>pr_input = 1, pr_output = 3, pr_cacheWrite = 0, pr_cacheRead = 0\<rparr>"

definition getPricing :: "pricingData \<Rightarrow> string \<Rightarrow> ModelPricing" where
  "getPricing pricingData modelName =
     (let normalizedName = normalizeModelName modelName in
      case map_of pricingData normalizedName of
        Some pricing \<Rightarrow> pricing
      | None \<Rightarrow>
          (case prefixLoop (toLowerCase normalizedName) pricingData of
             Some pricing \<Rightarrow> pricing
           | None \<Rightarrow>
               (case map_of pricingData ''default'' of
                  Some pricing \<Rightarrow> pricing
                | None \<Rightarrow> fallbackPricing)))"

record CostEstimate =
  isSubscription :: bool
  apiSessionCost :: real
  apiMostRecentCost :: real
  estimatedSessionCost :: real
  estimatedInputCost :: real
  estimatedOutputCost :: real
  estimatedCacheReadCost :: real
  estimatedCacheWriteCost :: real
  pricePerMillionInput :: real
  pricePerMillionOutput :: real
  pricePerMillionCacheRead :: real
  pricePerMillionCacheWrite :: real
  ce_inputTokens :: int
  ce_outputTokens :: int
  ce_reasoningTokens :: int
  ce_cacheReadTokens :: int
  ce_cacheWriteTokens :: int

definition calculateCost :: "pricingData \<Rightarrow> TokenAnalysis \<Rightarrow> CostEstimate" where
  "calculateCost pricingData analysis =
     (let pricing = getPricing pricingData (tm_name (model analysis));
          hasActivity = (assistantMessageCount analysis > 0 \<and>
                         (inputTokens analysis > 0 \<or> outputTokens analysis > 0));
          isSub = (hasActivity \<and> sessionCost analysis = 0);
          estInput = (of_int (inputTokens analysis) / 1000000) * pr_input pricing;
          estOutput = (of_int (outputTokens analysis + reasoningTokens analysis) / 1000000)
                        * pr_output pricing;
          estCacheRead = (of_int (cacheReadTokens analysis) / 1000000) * pr_cacheRead pricing;
          estCacheWrite = (of_int (cacheWriteTokens analysis) / 1000000) * pr_cacheWrite pricing
      in \<lparr>isSubscription = isSub,
          apiSessionCost = sessionCost analysis,
          apiMostRecentCost = mostRecentCost analysis,
          estimatedSessionCost = estInput + estOutput + estCacheRead + estCacheWrite,
          estimatedInputCost = estInput,
          estimatedOutputCost = estOutput,
          estimatedCacheReadCost = estCacheRead,
          estimatedCacheWriteCost = estCacheWrite,
          pricePerMillionInput = pr_input pricing,
          pricePerMillionOutput = pr_output pricing,
          pricePerMillionCacheRead = pr_cacheRead pricing,
          pricePerMillionCacheWrite = pr_cacheWrite pricing,
          ce_inputTokens = inputTokens analysis,
          ce_outputTokens = outputTokens analysis,
          ce_reasoningTokens = reasoningTokens analysis,
          ce_cacheReadTokens = cacheReadTokens analysis,
          ce_cacheWriteTokens = cacheWriteTokens analysis\<rparr>)"

section \<open>Token analysis engine (analyzer.ts)\<close>

text \<open>Class \<open>TokenAnalysisEngine\<close>, in \<open>src/prompts/auto-lsp-check.md\<close>.\<close>

text \<open>The loop of \<open>buildCategory\<close> over the sources: an entry for each source with a
  positive token count.\<close>

fun tokenizeSources :: "vendor \<Rightarrow> TokenModel \<Rightarrow> CategoryEntrySource list \<Rightarrow> CategoryEntry list" where
  "tokenizeSources v tokenModel [] = []"
| "tokenizeSources v tokenModel (source # rest) =
     (let tokens = tokenCount v (src_content source) tokenModel in
      if tokens > 0
      then \<lparr>entry_label = src_label source, entry_tokens = tokens\<rparr> # tokenizeSources v tokenModel rest
      else tokenizeSources v tokenModel rest)"

text \<open>\<open>entries.sort((a, b) => b.tokens - a.tokens)\<close> sorts the array in place and is
  stable: \<^const>\<open>sort_key\<close> on the negated token count.\<close>

definition sortByTokensDesc :: "CategoryEntry list \<Rightarrow> CategoryEntry list" where
  "sortByTokensDesc entries = sort_key (\<lambda>e. - entry_tokens e) entries"

definition buildCategory ::
  "vendor \<Rightarrow> string \<Rightarrow> CategoryEntrySource list \<Rightarrow> TokenModel \<Rightarrow> int \<Rightarrow> CategorySummary" where
  "buildCategory v label sources tokenModel entryLimit =
     (let entries = sortByTokensDesc (tokenizeSources v tokenModel sources);
          limited = slice0 entryLimit entries;
          total = foldl (\<lambda>sum entry. sum + entry_tokens entry) 0 entries
      in \<lparr>cat_label = label, cat_totalTokens = total, cat_entries = limited,
          cat_allEntries = entries\<rparr>)"

text \<open>The telemetry of one assistant message, as \<open>applyTelemetryAdjustments\<close> maps it:
  \<open>{tokens: m.info.tokens, cost: m.info.cost ?? 0}\<close>.\<close>

definition isAssistantWithTelemetry :: "SessionMessage \<Rightarrow> bool" where
  "isAssistantWithTelemetry m =
     (mi_role m = ''assistant'' \<and> (mi_tokens m \<noteq> None \<or> mi_cost m \<noteq> None))"

definition costOr0 :: "real option \<Rightarrow> real" where
  "costOr0 c = (case c of None \<Rightarrow> 0 | Some x \<Rightarrow> x)"

definition usageOf :: "(TokenUsage \<Rightarrow> int option) \<Rightarrow> TokenUsage option \<Rightarrow> int" where
  "usageOf field t = (case t of None \<Rightarrow> 0 | Some u \<Rightarrow> numberOr0 (field u))"

definition usageTotal :: "TokenUsage option \<Rightarrow> int" where
  "usageTotal t =
     usageOf tu_input t + usageOf tu_output t + usageOf tu_reasoning t +
     usageOf tu_cacheRead t + usageOf tu_cacheWrite t"

text \<open>\<open>[...assistants].reverse().find(usage > 0) ?? assistants[assistants.length - 1]\<close>.\<close>

definition mostRecentWithUsage :: "SessionMessage list \<Rightarrow> SessionMessage option" where
  "mostRecentWithUsage assistants =
     (case find (\<lambda>m. mi_tokens m \<noteq> None \<and> usageTotal (mi_tokens m) > 0) (rev assistants) of
        Some m \<Rightarrow> Some m
      | None \<Rightarrow> (if assistants = [] then None else Some (last assistants)))"

definition inferredEntry :: "int \<Rightarrow> CategoryEntry" where
  "inferredEntry inferredSystemTokens =
     \<lparr>entry_label = ''System (inferred from API)'', entry_tokens = inferredSystemTokens\<rparr>"

definition applyTelemetryAdjustments :: "TokenAnalysis \<Rightarrow> SessionMessage list \<Rightarrow> TokenAnalysis" where
  "applyTelemetryAdjustments analysis messages =
     (let assistants = filter isAssistantWithTelemetry messages;
          totalInput = sum_list (map (\<lambda>m. usageOf tu_input (mi_tokens m)) assistants);
          totalOutput = sum_list (map (\<lambda>m. usageOf tu_output (mi_tokens m)) assistants);
          totalReasoning = sum_list (map (\<lambda>m. usageOf tu_reasoning (mi_tokens m)) assistants);
          totalCacheRead = sum_list (map (\<lambda>m. usageOf tu_cacheRead (mi_tokens m)) assistants);
          totalCacheWrite = sum_list (map (\<lambda>m. usageOf tu_cacheWrite (mi_tokens m)) assistants);
          totalCost = sum_list (map (\<lambda>m. costOr0 (mi_cost m)) assistants);
          recent = mostRecentWithUsage assistants;
          recentTokens = (case recent of None \<Rightarrow> None | Some m \<Rightarrow> mi_tokens m);
          recentInput = usageOf tu_input recentTokens;
          recentOutput = usageOf tu_output recentTokens;
          recentReasoning = usageOf tu_reasoning recentTokens;
          recentCacheRead = usageOf tu_cacheRead recentTokens;
          recentCacheWrite = usageOf tu_cacheWrite recentTokens;
          recentCost = (case recent of None \<Rightarrow> 0 | Some m \<Rightarrow> costOr0 (mi_cost m));
          cats = categories analysis;
          recentApiInputTotal = recentInput + recentCacheRead;
          localUserAndTools = cat_totalTokens (user cats) + cat_totalTokens (tools cats);
          inferredSystemTokens = max 0 (recentApiInputTotal - localUserAndTools);
          system' =
            (if inferredSystemTokens > 0 \<and> cat_totalTokens (system cats) = 0
             then (system cats)
                    \<lparr>cat_totalTokens := inferredSystemTokens,
                     cat_entries := [inferredEntry inferredSystemTokens],
                     cat_allEntries := [inferredEntry inferredSystemTokens]\<rparr>
             else system cats)
      in analysis
           \<lparr>inputTokens := totalInput,
            outputTokens := totalOutput,
            reasoningTokens := totalReasoning,
            cacheReadTokens := totalCacheRead,
            cacheWriteTokens := totalCacheWrite,
            assistantMessageCount := int (length assistants),
            sessionCost := totalCost,
            mostRecentCost := recentCost,
            mostRecentInput := recentInput,
            mostRecentOutput := recentOutput,
            mostRecentReasoning := recentReasoning,
            mostRecentCacheRead := recentCacheRead,
            mostRecentCacheWrite := recentCacheWrite,
            categories := cats\<lparr>system := system'\<rparr>,
            totalTokens :=
              cat_totalTokens system' + cat_totalTokens (user cats) +
              cat_totalTokens (assistant cats) + cat_totalTokens (tools cats) +
              cat_totalTokens (reasoning cats)\<rparr>)"

text \<open>
  \<open>analyze\<close> first asks the \<open>ContentCollector\<close> for the text sources of the five
  categories, the names of the tools called and the calls per tool. No property below
  depends on how the collector extracts them, so its results are an input here.
\<close>

record Collected =
  systemPrompts :: "CategoryEntrySource list"
  userTexts :: "CategoryEntrySource list"
  assistantTexts :: "CategoryEntrySource list"
  toolOutputs :: "CategoryEntrySource list"
  reasoningTraces :: "CategoryEntrySource list"
  col_allToolsCalled :: "string list"
  col_toolCallCounts :: "(string \<times> int) list"

definition initialAnalysis ::
  "vendor \<Rightarrow> string \<Rightarrow> Collected \<Rightarrow> TokenModel \<Rightarrow> int \<Rightarrow> TokenAnalysis" where
  "initialAnalysis v sid collected tokenModel entryLimit =
     (let sys = buildCategory v ''system'' (systemPrompts collected) tokenModel entryLimit;
          usr = buildCategory v ''user'' (userTexts collected) tokenModel entryLimit;
          ast = buildCategory v ''assistant'' (assistantTexts collected) tokenModel entryLimit;
          tls = buildCategory v ''tools'' (toolOutputs collected) tokenModel entryLimit;
          rsn = buildCategory v ''reasoning'' (reasoningTraces collected) tokenModel entryLimit
      in \<lparr>sessionID = sid,
          model = tokenModel,
          categories = \<lparr>system = sys, user = usr, assistant = ast, tools = tls, reasoning = rsn\<rparr>,
          totalTokens =
            cat_totalTokens sys + cat_totalTokens usr + cat_totalTokens ast +
            cat_totalTokens tls + cat_totalTokens rsn,
          inputTokens = 0,
          outputTokens = 0,
          reasoningTokens = 0,
          cacheReadTokens = 0,
          cacheWriteTokens = 0,
          assistantMessageCount = 0,
          mostRecentInput = 0,
          mostRecentOutput = 0,
          mostRecentReasoning = 0,
          mostRecentCacheRead = 0,
          mostRecentCacheWrite = 0,
          sessionCost = 0,
          mostRecentCost = 0,
          allToolsCalled = col_allToolsCalled collected,
          toolCallCounts = col_toolCallCounts collected\<rparr>)"

definition analyze ::
  "vendor \<Rightarrow> string \<Rightarrow> Collected \<Rightarrow> SessionMessage list \<Rightarrow> TokenModel \<Rightarrow> int \<Rightarrow> TokenAnalysis" where
  "analyze v sid collected messages tokenModel entryLimit =
     applyTelemetryAdjustments (initialAnalysis v sid collected tokenModel entryLimit) messages"

subsection \<open>The entry limit passed by the plugin (tokenscope.ts, config.ts)\<close>

text \<open>
  The only call of \<open>analyze\<close> is in the \<open>tokenscope\<close> tool. Its argument \<open>limitMessages\<close> has the
  schema \<open>number().int().min(1).max(10).optional()\<close>, and the limit passed on is
  \<open>args.limitMessages ?? DEFAULT_ENTRY_LIMIT\<close>.
\<close>

definition DEFAULT_ENTRY_LIMIT :: int where
  "DEFAULT_ENTRY_LIMIT = 3"

definition limitMessagesSchema :: "int option \<Rightarrow> bool" where
  "limitMessagesSchema limitMessages =
     (case limitMessages of None \<Rightarrow> True | Some n \<Rightarrow> 1 \<le> n \<and> n \<le> 10)"

definition passedEntryLimit :: "int option \<Rightarrow> int" where
  "passedEntryLimit limitMessages =
     (case limitMessages of None \<Rightarrow> DEFAULT_ENTRY_LIMIT | Some n \<Rightarrow> n)"

section \<open>Context analyzer, estimate path (context.ts)\<close>

text \<open>Class \<open>ContextAnalyzer\<close>, in \<open>src/unnamed/part_002\<close>: the path taken when the
  export holds no system prompt. The exact path, which parses prompt text, is not modelled.\<close>

record ExportedPart =
  ep_type :: string
  ep_tool :: "string option"

record ExportedMessage =
  em_role :: string
  em_system :: "string list option"
  em_tools :: "(string \<times> bool) list option"
  em_tokens :: "TokenUsage option"
  em_parts :: "ExportedPart list"

record ExportedSession =
  es_messages :: "ExportedMessage list"

record ContextComponent =
  tokens :: int
  identified :: bool

record ContextBreakdown =
  baseSystemPrompt :: ContextComponent
  toolDefinitions :: ContextComponent
  toolCount :: int
  environmentContext :: ContextComponent
  components :: "string list"
  projectTree :: ContextComponent
  fileCount :: int
  customInstructions :: ContextComponent
  sources :: "string list"
  totalCachedContext :: int

text \<open>The breakdown that \<open>analyzeContextBreakdown\<close> creates and, when the export holds no
  system prompt, hands to \<open>estimateContextFromCacheTokens\<close>.\<close>

definition initialBreakdown :: ContextBreakdown where
  "initialBreakdown =
     \<lparr>baseSystemPrompt = \<lparr>tokens = 0, identified = False\<rparr>,
      toolDefinitions = \<lparr>tokens = 0, identified = False\<rparr>,
      toolCount = 0,
      environmentContext = \<lparr>tokens = 0, identified = False\<rparr>,
      components = [],
      projectTree = \<lparr>tokens = 0, identified = False\<rparr>,
      fileCount = 0,
      customInstructions = \<lparr>tokens = 0, identified = False\<rparr>,
      sources = [],
      totalCachedContext = 0\<rparr>"

text \<open>First loop of \<open>extractEnabledTools\<close>: the \<open>tools\<close> maps of the messages, merged.
  The tool count of the estimate is the number of names in the result, whatever their
  flag.\<close>

fun collectToolMaps :: "ExportedMessage list \<Rightarrow> (string \<times> bool) list \<Rightarrow> (string \<times> bool) list" where
  "collectToolMaps [] acc = acc"
| "collectToolMaps (message # rest) acc =
     (case em_tools message of
        None \<Rightarrow> collectToolMaps rest acc
      | Some entries \<Rightarrow>
          collectToolMaps rest (foldl (\<lambda>a (name, enabled). mapSet a name enabled) acc entries))"

text \<open>Second loop: the tools named by tool-call parts.\<close>

definition collectToolCalls :: "ExportedMessage list \<Rightarrow> (string \<times> bool) list" where
  "collectToolCalls messages =
     foldl (\<lambda>a part.
         (case ep_tool part of
            Some t \<Rightarrow> if ep_type part = ''tool'' \<and> t \<noteq> [] then mapSet a t True else a
          | None \<Rightarrow> a))
       [] (concat (map em_parts messages))"

definition extractEnabledTools :: "ExportedSession \<Rightarrow> (string \<times> bool) list" where
  "extractEnabledTools exported =
     (let toolMap = collectToolMaps (es_messages exported) [] in
      if length toolMap = 0 then collectToolCalls (es_messages exported) else toolMap)"

text \<open>The first assistant message with a truthy \<open>tokens?.cache?.write\<close> gives the total;
  0 when there is none.\<close>

fun firstCacheWrite :: "ExportedMessage list \<Rightarrow> int" where
  "firstCacheWrite [] = 0"
| "firstCacheWrite (message # rest) =
     (if em_role message = ''assistant'' \<and> usageOf tu_cacheWrite (em_tokens message) \<noteq> 0
      then usageOf tu_cacheWrite (em_tokens message)
      else firstCacheWrite rest)"

definition estimateContextFromCacheTokens :: "ExportedSession \<Rightarrow> ContextBreakdown \<Rightarrow> ContextBreakdown" where
  "estimateContextFromCacheTokens exported breakdown =
     (let totalCachedTokens = firstCacheWrite (es_messages exported);
          enabledToolCount = int (length (extractEnabledTools exported))
      in if totalCachedTokens = 0 then breakdown
         else
           (let estimatedToolTokens = enabledToolCount * 350;
                remainingTokens = totalCachedTokens - estimatedToolTokens - 150 - 500
            in breakdown
                 \<lparr>toolDefinitions := \<lparr>tokens = estimatedToolTokens, identified = False\<rparr>,
                  toolCount := enabledToolCount,
                  environmentContext := \<lparr>tokens = 150, identified = False\<rparr>,
                  components := [''working-dir'', ''platform'', ''git-status'', ''date''],
                  projectTree := \<lparr>tokens = 500, identified = False\<rparr>,
                  baseSystemPrompt := \<lparr>tokens = max 0 remainingTokens, identified = False\<rparr>,
                  totalCachedContext := totalCachedTokens\<rparr>))"

section \<open>Subagent analyzer (subagent.ts)\<close>

text \<open>Class \<open>SubagentAnalyzer\<close>, at the start of \<open>src/unnamed/part_004\<close>.\<close>

record ChildSession =
  cs_id :: string
  cs_title :: string

record SubagentSummary =
  ss_sessionID :: string
  ss_title :: string
  ss_agentType :: string
  ss_inputTokens :: int
  ss_outputTokens :: int
  ss_reasoningTokens :: int
  ss_cacheReadTokens :: int
  ss_cacheWriteTokens :: int
  ss_totalTokens :: int
  ss_apiCost :: real
  ss_estimatedCost :: real
  ss_assistantMessageCount :: int

record SubagentAnalysis =
  subagents :: "SubagentSummary list"
  totalInputTokens :: int
  totalOutputTokens :: int
  totalReasoningTokens :: int
  totalCacheReadTokens :: int
  totalCacheWriteTokens :: int
  sa_totalTokens :: int
  totalApiCost :: real
  totalEstimatedCost :: real
  totalApiCalls :: int

text \<open>
  The session store of the host. A call that throws, or that answers with something that
  is not an array, is \<open>None\<close>: \<open>analyzeChildSessions\<close> then returns its empty result and
  \<open>analyzeChildSession\<close> returns \<open>null\<close>.
\<close>

record client =
  session_children :: "string \<Rightarrow> ChildSession list option"
  session_messages :: "string \<Rightarrow> SessionMessage list option"

text \<open>\<open>title.match(/@(\w+)\s+subagent/i)\<close> tried at one \<open>@\<close>: the word after it, when
  white space and then \<open>subagent\<close> follow.\<close>

definition matchAgentAt :: "string \<Rightarrow> string option" where
  "matchAgentAt afterAt =
     (let word = takeWhile isWordChar afterAt;
          rest = dropWhile isWordChar afterAt;
          spaces = takeWhile isWhiteSpace rest;
          tail = dropWhile isWhiteSpace rest
      in if word \<noteq> [] \<and> spaces \<noteq> [] \<and> toLowerCase (take 8 tail) = ''subagent''
         then Some word else None)"

fun matchAgent :: "string \<Rightarrow> string option" where
  "matchAgent [] = None"
| "matchAgent (c # cs) =
     (if c = CHR ''@'' then
        (case matchAgentAt cs of Some word \<Rightarrow> Some word | None \<Rightarrow> matchAgent cs)
      else matchAgent cs)"

definition extractAgentType :: "string \<Rightarrow> string" where
  "extractAgentType title =
     (case matchAgent title of
        Some word \<Rightarrow> word
      | None \<Rightarrow>
          (let first = toLowerCase (takeWhile (\<lambda>c. \<not> isWhiteSpace c) title)
           in if first = [] then ''subagent'' else first))"

text \<open>The loop of \<open>analyzeChildSession\<close> over the messages; \<open>modelName\<close> is the last
  non-empty \<open>modelID\<close> of an assistant message.\<close>

fun lastModelName :: "SessionMessage list \<Rightarrow> string \<Rightarrow> string" where
  "lastModelName [] modelName = modelName"
| "lastModelName (message # rest) modelName =
     (case mi_modelID message of
        Some m \<Rightarrow> lastModelName rest (if mi_role message = ''assistant'' \<and> m \<noteq> [] then m else modelName)
      | None \<Rightarrow> lastModelName rest modelName)"

definition analyzeChildSession :: "client \<Rightarrow> pricingData \<Rightarrow> ChildSession \<Rightarrow> SubagentSummary option" where
  "analyzeChildSession cl pricingData child =
     (case session_messages cl (cs_id child) of
        None \<Rightarrow> None
      | Some messages \<Rightarrow>
          if length messages = 0 then None
          else
            (let assistants = filter (\<lambda>m. mi_role m = ''assistant'') messages;
                 inputT = sum_list (map (\<lambda>m. usageOf tu_input (mi_tokens m)) assistants);
                 outputT = sum_list (map (\<lambda>m. usageOf tu_output (mi_tokens m)) assistants);
                 reasoningT = sum_list (map (\<lambda>m. usageOf tu_reasoning (mi_tokens m)) assistants);
                 cacheReadT = sum_list (map (\<lambda>m. usageOf tu_cacheRead (mi_tokens m)) assistants);
                 cacheWriteT = sum_list (map (\<lambda>m. usageOf tu_cacheWrite (mi_tokens m)) assistants);
                 apiCost = sum_list (map (\<lambda>m. costOr0 (mi_cost m)) assistants);
                 modelName = lastModelName messages ''unknown'';
                 pricing = getPricing pricingData modelName;
                 estimatedCost =
                   (of_int inputT / 1000000) * pr_input pricing +
                   (of_int (outputT + reasoningT) / 1000000) * pr_output pricing +
                   (of_int cacheReadT / 1000000) * pr_cacheRead pricing +
                   (of_int cacheWriteT / 1000000) * pr_cacheWrite pricing
             in Some \<lparr>ss_sessionID = cs_id child,
                      ss_title = cs_title child,
                      ss_agentType = extractAgentType (cs_title child),
                      ss_inputTokens = inputT,
                      ss_outputTokens = outputT,
                      ss_reasoningTokens = reasoningT,
                      ss_cacheReadTokens = cacheReadT,
                      ss_cacheWriteTokens = cacheWriteT,
                      ss_totalTokens = inputT + outputT + reasoningT + cacheReadT + cacheWriteT,
                      ss_apiCost = apiCost,
                      ss_estimatedCost = estimatedCost,
                      ss_assistantMessageCount = int (length assistants)\<rparr>))"

definition emptyAnalysis :: SubagentAnalysis where
  "emptyAnalysis =
     \<lparr>subagents = [], totalInputTokens = 0, totalOutputTokens = 0, totalReasoningTokens = 0,
      totalCacheReadTokens = 0, totalCacheWriteTokens = 0, sa_totalTokens = 0,
      totalApiCost = 0, totalEstimatedCost = 0, totalApiCalls = 0\<rparr>"

text \<open>\<open>if (summary) { result.subagents.push(summary); result.total... += ... }\<close>.\<close>

definition addSummary :: "SubagentAnalysis \<Rightarrow> SubagentSummary option \<Rightarrow> SubagentAnalysis" where
  "addSummary result summary =
     (case summary of
        None \<Rightarrow> result
      | Some s \<Rightarrow>
          \<lparr>subagents = subagents result @ [s],
           totalInputTokens = totalInputTokens result + ss_inputTokens s,
           totalOutputTokens = totalOutputTokens result + ss_outputTokens s,
           totalReasoningTokens = totalReasoningTokens result + ss_reasoningTokens s,
           totalCacheReadTokens = totalCacheReadTokens result + ss_cacheReadTokens s,
           totalCacheWriteTokens = totalCacheWriteTokens result + ss_cacheWriteTokens s,
           sa_totalTokens = sa_totalTokens result + ss_totalTokens s,
           totalApiCost = totalApiCost result + ss_apiCost s,
           totalEstimatedCost = totalEstimatedCost result + ss_estimatedCost s,
           totalApiCalls = totalApiCalls result + ss_assistantMessageCount s\<rparr>)"

text \<open>The second half of the loop body: the nested analysis is appended and added.\<close>

definition addNested :: "SubagentAnalysis \<Rightarrow> SubagentAnalysis \<Rightarrow> SubagentAnalysis" where
  "addNested result nested =
     \<lparr>subagents = subagents result @ subagents nested,
      totalInputTokens = totalInputTokens result + totalInputTokens nested,
      totalOutputTokens = totalOutputTokens result + totalOutputTokens nested,
      totalReasoningTokens = totalReasoningTokens result + totalReasoningTokens nested,
      totalCacheReadTokens = totalCacheReadTokens result + totalCacheReadTokens nested,
      totalCacheWriteTokens = totalCacheWriteTokens result + totalCacheWriteTokens nested,
      sa_totalTokens = sa_totalTokens result + sa_totalTokens nested,
      totalApiCost = totalApiCost result + totalApiCost nested,
      totalEstimatedCost = totalEstimatedCost result + totalEstimatedCost nested,
      totalApiCalls = totalApiCalls result + totalApiCalls nested\<rparr>"

text \<open>A \<open>for ... of\<close> loop whose body may not return: the loop returns only if every
  iteration does.\<close>

fun forEach :: "('a \<Rightarrow> 's \<Rightarrow> 's option) \<Rightarrow> 'a list \<Rightarrow> 's \<Rightarrow> 's option" where
  "forEach body [] s = Some s"
| "forEach body (x # xs) s = Option.bind (body x s) (forEach body xs)"

lemma forEach_mono [partial_function_mono]:
  assumes "\<And>x s. mono_option (\<lambda>f. B f x s)"
  shows "mono_option (\<lambda>f. forEach (B f) xs s)"
proof (induction xs arbitrary: s)
  case Nil
  show ?case by (simp add: option.const_mono)
next
  case (Cons x xs)
  show ?case
    unfolding forEach.simps
    by (rule bind_mono [OF assms Cons])
qed

text \<open>\<open>analyzeChildSessions\<close> calls itself on every child and keeps no record of the
  sessions it has seen. \<open>None\<close> is a call that never returns.\<close>

partial_function (option) analyzeChildSessions ::
  "client \<Rightarrow> pricingData \<Rightarrow> string \<Rightarrow> SubagentAnalysis option" where
  "analyzeChildSessions cl pricingData parentSessionID =
     (case session_children cl parentSessionID of
        None \<Rightarrow> Some emptyAnalysis
      | Some children \<Rightarrow>
          forEach
            (\<lambda>child result.
               Option.bind (analyzeChildSessions cl pricingData (cs_id child))
                 (\<lambda>nestedAnalysis.
                    Some (addNested
                            (addSummary result (analyzeChildSession cl pricingData child))
                            nestedAnalysis)))
            children emptyAnalysis)"

section \<open>Skill analyzer, loaded skills (skill.ts)\<close>

text \<open>Class \<open>SkillAnalyzer\<close>, in \<open>src/unnamed/part_005\<close>: \<open>getLoadedSkills\<close> and
  \<open>extractSkillName\<close>.\<close>

record SkillData =
  sd_name :: string
  sd_callCount :: int
  sd_firstMessageIndex :: int
  sd_tokens :: int
  sd_content :: string

record LoadedSkill =
  ls_name :: string
  ls_callCount :: int
  ls_firstMessageIndex :: int
  ls_tokens :: int
  ls_totalTokens :: int
  ls_content :: string

text \<open>
  \<open>state.title.match(/Loaded skill:\s*(.+)/i)\<close>, the captured group. After the literal,
  \<open>\s*\<close> takes the white space; the group is the rest of that line. When only white
  space follows the literal, backtracking leaves the group the last white-space character
  that is not a line terminator, if there is one.
\<close>

definition captureSkillName :: "string \<Rightarrow> string option" where
  "captureSkillName afterLiteral =
     (let spaces = takeWhile isWhiteSpace afterLiteral;
          rest = dropWhile isWhiteSpace afterLiteral
      in if rest \<noteq> [] then Some (takeWhile (\<lambda>c. \<not> isLineTerminator c) rest)
         else
           (case dropWhile isLineTerminator (rev spaces) of
              [] \<Rightarrow> None
            | c # _ \<Rightarrow> Some [c]))"

fun matchLoadedSkill :: "string \<Rightarrow> string option" where
  "matchLoadedSkill [] = None"
| "matchLoadedSkill (c # cs) =
     (if toLowerCase (take 13 (c # cs)) = ''loaded skill:''
      then
        (case captureSkillName (drop 13 (c # cs)) of
           Some g \<Rightarrow> Some g
         | None \<Rightarrow> matchLoadedSkill cs)
      else matchLoadedSkill cs)"

text \<open>\<open>extractSkillName\<close>: \<open>None\<close> is \<open>undefined\<close>. An empty \<open>name\<close> is falsy.\<close>

definition truthyName :: "string option \<Rightarrow> bool" where
  "truthyName n = (case n of None \<Rightarrow> False | Some s \<Rightarrow> s \<noteq> [])"

definition extractSkillName :: "ToolState \<Rightarrow> string option" where
  "extractSkillName state =
     (if truthyName (ts_inputName state) then ts_inputName state
      else if truthyName (ts_metadataName state) then ts_metadataName state
      else
        (case ts_title state of
           None \<Rightarrow> None
         | Some title \<Rightarrow>
             (case matchLoadedSkill title of
                None \<Rightarrow> None
              | Some g \<Rightarrow> Some (trim g))))"

text \<open>
  The body of the inner loop of \<open>getLoadedSkills\<close> for one part. The state of the loop is
  the skill map together with the trace of the calls of \<open>countTokens\<close>, one pair of skill
  name and content per call; the trace is not a variable of the source, it records that
  effect.
\<close>

type_synonym skillLoop = "(string \<times> SkillData) list \<times> (string \<times> string) list"

definition processPart ::
  "vendor \<Rightarrow> TokenModel \<Rightarrow> int \<Rightarrow> skillLoop \<Rightarrow> SessionMessagePart \<Rightarrow> skillLoop" where
  "processPart v tokenModel messageIndex st part =
     (let skillMap = fst st; calls = snd st in
      case part of
        ToolPart tool state \<Rightarrow>
          if tool \<noteq> ''skill'' then st
          else if ts_status state \<noteq> StatusCompleted then st
          else
            (case extractSkillName state of
               None \<Rightarrow> st
             | Some skillName \<Rightarrow>
                 if skillName = [] then st
                 else
                   (let content = trim (case ts_output state of None \<Rightarrow> [] | Some out \<Rightarrow> out)
                    in if content = [] then st
                       else
                         (case map_of skillMap skillName of
                            Some existing \<Rightarrow>
                              (mapSet skillMap skillName
                                 (existing\<lparr>sd_callCount := sd_callCount existing + 1\<rparr>),
                               calls)
                          | None \<Rightarrow>
                              (mapSet skillMap skillName
                                 \<lparr>sd_name = skillName,
                                  sd_callCount = 1,
                                  sd_firstMessageIndex = messageIndex,
                                  sd_tokens = tokenCount v content tokenModel,
                                  sd_content =
                                    (if length content > 500 then take 500 content @ ''...''
                                     else content)\<rparr>,
                               calls @ [(skillName, content)]))))
      | _ \<Rightarrow> st)"

text \<open>The outer loop; \<open>messageIndex\<close> counts the user and assistant messages so far.\<close>

fun processMessages ::
  "vendor \<Rightarrow> TokenModel \<Rightarrow> SessionMessage list \<Rightarrow> int \<Rightarrow> skillLoop \<Rightarrow> skillLoop" where
  "processMessages v tokenModel [] messageIndex st = st"
| "processMessages v tokenModel (message # rest) messageIndex st =
     (let messageIndex' =
            (if mi_role message = ''user'' \<or> mi_role message = ''assistant''
             then messageIndex + 1 else messageIndex)
      in processMessages v tokenModel rest messageIndex'
           (foldl (processPart v tokenModel messageIndex') st (parts message)))"

definition toLoadedSkill :: "SkillData \<Rightarrow> LoadedSkill" where
  "toLoadedSkill skillData =
     \<lparr>ls_name = sd_name skillData,
      ls_callCount = sd_callCount skillData,
      ls_firstMessageIndex = sd_firstMessageIndex skillData,
      ls_tokens = sd_tokens skillData,
      ls_totalTokens = sd_tokens skillData * sd_callCount skillData,
      ls_content = sd_content skillData\<rparr>"

definition getLoadedSkills ::
  "vendor \<Rightarrow> SessionMessage list \<Rightarrow> TokenModel \<Rightarrow> LoadedSkill list \<times> int" where
  "getLoadedSkills v messages tokenModel =
     (let skillMap = fst (processMessages v tokenModel messages 0 ([], []));
          skills = map (\<lambda>(k, skillData). toLoadedSkill skillData) skillMap;
          total = foldl (\<lambda>sum skill. sum + ls_totalTokens skill) 0 skills
      in (sort_key (\<lambda>skill. - ls_totalTokens skill) skills, total))"

text \<open>The calls of \<open>countTokens\<close> that \<open>getLoadedSkills\<close> makes.\<close>

definition tokenizerCalls ::
  "vendor \<Rightarrow> SessionMessage list \<Rightarrow> TokenModel \<Rightarrow> (string \<times> string) list" where
  "tokenizerCalls v messages tokenModel = snd (processMessages v tokenModel messages 0 ([], []))"

section \<open>Notions used in the properties\<close>

subsection \<open>The specification's pricing lookup\<close>

text \<open>
  The lookup as the specification words it, for comparison with \<open>getPricing\<close>: after the
  exact match, the entry whose key is the longest case-insensitive prefix of the normalized
  name (the earlier entry among keys of equal length), then the \<open>default\<close> entry.
\<close>

definition ciPrefixKey :: "string \<Rightarrow> string \<Rightarrow> bool" where
  "ciPrefixKey normalizedName key = startsWith (toLowerCase normalizedName) (toLowerCase key)"

fun spec_longestPrefix :: "string \<Rightarrow> pricingData \<Rightarrow> (string \<times> ModelPricing) option" where
  "spec_longestPrefix n [] = None"
| "spec_longestPrefix n ((key, pricing) # rest) =
     (case spec_longestPrefix n rest of
        None \<Rightarrow> if ciPrefixKey n key then Some (key, pricing) else None
      | Some (key', pricing') \<Rightarrow>
          if ciPrefixKey n key \<and> length key' \<le> length key then Some (key, pricing)
          else Some (key', pricing'))"

definition spec_getPricing :: "pricingData \<Rightarrow> string \<Rightarrow> ModelPricing" where
  "spec_getPricing pricingData modelName =
     (let normalizedName = normalizeModelName modelName in
      case map_of pricingData normalizedName of
        Some pricing \<Rightarrow> pricing
      | None \<Rightarrow>
          (case spec_longestPrefix normalizedName pricingData of
             Some (key, pricing) \<Rightarrow> pricing
           | None \<Rightarrow>
               (case map_of pricingData ''default'' of
                  Some pricing \<Rightarrow> pricing
                | None \<Rightarrow> fallbackPricing)))"

subsection \<open>Context buckets, category invariant, inferred system tokens\<close>

text \<open>The sum of the five buckets of a context breakdown.\<close>

definition bucketSum :: "ContextBreakdown \<Rightarrow> int" where
  "bucketSum b =
     tokens (baseSystemPrompt b) + tokens (toolDefinitions b) + tokens (environmentContext b) +
     tokens (projectTree b) + tokens (customInstructions b)"

text \<open>
  The invariant of a category summary, in the specification's words: the total is the sum
  over all entries, and the top entries are all entries sorted descending by token count
  (stable, so ties keep their order) and truncated to the entry limit.
\<close>

definition categoryInvariant :: "int \<Rightarrow> CategorySummary \<Rightarrow> bool" where
  "categoryInvariant entryLimit c =
     (cat_totalTokens c = sum_list (map entry_tokens (cat_allEntries c)) \<and>
      cat_entries c = take (nat entryLimit) (sortByTokensDesc (cat_allEntries c)))"

definition categoryList :: "TokenAnalysis \<Rightarrow> CategorySummary list" where
  "categoryList analysis =
     [system (categories analysis), user (categories analysis), assistant (categories analysis),
      tools (categories analysis), reasoning (categories analysis)]"

text \<open>The value that \<open>applyTelemetryAdjustments\<close> infers for the system category:
  \<open>max(0, recentInput + recentCacheRead - localUserTokens - localToolTokens)\<close>.\<close>

definition inferredSystemTokens :: "TokenAnalysis \<Rightarrow> SessionMessage list \<Rightarrow> int" where
  "inferredSystemTokens analysis messages =
     (let recentTokens =
            (case mostRecentWithUsage (filter isAssistantWithTelemetry messages) of
               None \<Rightarrow> None
             | Some m \<Rightarrow> mi_tokens m)
      in max 0 (usageOf tu_input recentTokens + usageOf tu_cacheRead recentTokens
                - (cat_totalTokens (user (categories analysis))
                   + cat_totalTokens (tools (categories analysis)))))"

subsection \<open>Session trees\<close>

text \<open>
  A finite session tree: a session with the trees of its child sessions. A store conforms
  to a tree when the children it reports for every session of the tree are the roots of
  that session's subtrees (a failing children call counts as no children). A store whose
  child relation has a cycle conforms to no tree.
\<close>

datatype stree = Node ChildSession "stree list"

fun rootOf :: "stree \<Rightarrow> ChildSession" where
  "rootOf (Node d ks) = d"

definition childrenOf :: "client \<Rightarrow> string \<Rightarrow> ChildSession list" where
  "childrenOf cl pid = (case session_children cl pid of None \<Rightarrow> [] | Some cs \<Rightarrow> cs)"

fun conforms :: "client \<Rightarrow> stree \<Rightarrow> bool" where
  "conforms cl (Node d ks) =
     (childrenOf cl (cs_id d) = map rootOf ks \<and> (\<forall>k\<in>set ks. conforms cl k))"

fun descendants :: "stree \<Rightarrow> ChildSession list" where
  "descendants (Node d ks) = concat (map (\<lambda>k. rootOf k # descendants k) ks)"

text \<open>A session reaches itself and whatever its children reach; a session is on a cycle
  when one of its children reaches it.\<close>

inductive reaches :: "client \<Rightarrow> string \<Rightarrow> string \<Rightarrow> bool" for cl where
  here: "reaches cl a a"
| down: "child \<in> set (childrenOf cl a) \<Longrightarrow> reaches cl (cs_id child) b \<Longrightarrow> reaches cl a b"

code_pred reaches .

definition onCycle :: "client \<Rightarrow> string \<Rightarrow> bool" where
  "onCycle cl x = (\<exists>child\<in>set (childrenOf cl x). reaches cl (cs_id child) x)"

text \<open>The totals of a list of summaries, field by field, and the own summaries of a list
  of sessions (a session without messages, or whose messages cannot be read, has none).\<close>

definition aggregate :: "SubagentSummary list \<Rightarrow> SubagentAnalysis" where
  "aggregate ss =
     \<lparr>subagents = ss,
      totalInputTokens = sum_list (map ss_inputTokens ss),
      totalOutputTokens = sum_list (map ss_outputTokens ss),
      totalReasoningTokens = sum_list (map ss_reasoningTokens ss),
      totalCacheReadTokens = sum_list (map ss_cacheReadTokens ss),
      totalCacheWriteTokens = sum_list (map ss_cacheWriteTokens ss),
      sa_totalTokens = sum_list (map ss_totalTokens ss),
      totalApiCost = sum_list (map ss_apiCost ss),
      totalEstimatedCost = sum_list (map ss_estimatedCost ss),
      totalApiCalls = sum_list (map ss_assistantMessageCount ss)\<rparr>"

definition ownSummaries :: "client \<Rightarrow> pricingData \<Rightarrow> ChildSession list \<Rightarrow> SubagentSummary list" where
  "ownSummaries cl pricingData sessions =
     concat (map (\<lambda>child. case analyzeChildSession cl pricingData child of
                            None \<Rightarrow> []
                          | Some summary \<Rightarrow> [summary]) sessions)"

subsection \<open>Skill invocations\<close>

text \<open>
  The invocations of a skill in a transcript: the outputs of the completed calls of the
  skill-loading tool whose extracted skill name is \<open>s\<close>, in transcript order; and the
  contents that \<open>getLoadedSkills\<close> reads from them, the outputs trimmed, without the empty
  ones.
\<close>

definition invocationOutput :: "string \<Rightarrow> SessionMessagePart \<Rightarrow> string option" where
  "invocationOutput s part =
     (case part of
        ToolPart tool state \<Rightarrow>
          if tool = ''skill'' \<and> ts_status state = StatusCompleted \<and> extractSkillName state = Some s
          then Some (case ts_output state of None \<Rightarrow> [] | Some out \<Rightarrow> out)
          else None
      | _ \<Rightarrow> None)"

definition skillOutputs :: "string \<Rightarrow> SessionMessagePart list \<Rightarrow> string list" where
  "skillOutputs s ps =
     concat (map (\<lambda>part. case invocationOutput s part of None \<Rightarrow> [] | Some out \<Rightarrow> [out]) ps)"

definition loadedContents :: "string \<Rightarrow> SessionMessagePart list \<Rightarrow> string list" where
  "loadedContents s ps = filter (\<lambda>c. c \<noteq> []) (map trim (skillOutputs s ps))"

definition allParts :: "SessionMessage list \<Rightarrow> SessionMessagePart list" where
  "allParts messages = concat (map parts messages)"

text \<open>The claim's reading of the invocations that count: the completed invocations with a
  non-empty output, untrimmed.\<close>

definition spec_nonEmptyOutputs :: "string \<Rightarrow> SessionMessage list \<Rightarrow> string list" where
  "spec_nonEmptyOutputs s messages = filter (\<lambda>out. out \<noteq> []) (skillOutputs s (allParts messages))"

text \<open>The entries of a skill in the list of loaded skills, and the tokenizer calls made
  for a skill.\<close>

definition entriesFor :: "string \<Rightarrow> LoadedSkill list \<Rightarrow> LoadedSkill list" where
  "entriesFor s skills = filter (\<lambda>e. ls_name e = s) skills"

definition callsFor :: "string \<Rightarrow> (string \<times> string) list \<Rightarrow> (string \<times> string) list" where
  "callsFor s calls = filter (\<lambda>call. fst call = s) calls"

text \<open>
  For the proofs about the skill loop: in the skill map each key occurs once and is the
  name stored under it; the view of a loop state for one skill is the token count and call
  count stored for it and the tokenizer calls made for it; \<open>counted\<close> is how the view
  develops over a list of loaded contents.
\<close>

definition wellFormed :: "(string \<times> SkillData) list \<Rightarrow> bool" where
  "wellFormed m = (distinct (map fst m) \<and> (\<forall>(k, d)\<in>set m. sd_name d = k))"

definition view :: "string \<Rightarrow> skillLoop \<Rightarrow> (int \<times> int) option \<times> (string \<times> string) list" where
  "view s st =
     (map_option (\<lambda>d. (sd_tokens d, sd_callCount d)) (map_of (fst st) s),
      filter (\<lambda>call. fst call = s) (snd st))"

definition counted ::
  "vendor \<Rightarrow> TokenModel \<Rightarrow> string \<Rightarrow> string list
     \<Rightarrow> (int \<times> int) option \<times> (string \<times> string) list
     \<Rightarrow> (int \<times> int) option \<times> (string \<times> string) list" where
  "counted v tm s cs old =
     (case fst old of
        Some (t, k) \<Rightarrow> (Some (t, k + int (length cs)), snd old)
      | None \<Rightarrow>
          (case cs of
             [] \<Rightarrow> old
           | c # rest \<Rightarrow>
               (Some (tokenCount v c tm, 1 + int (length rest)), snd old @ [(s, c)])))"

subsection \<open>Loader states\<close>

text \<open>The loader state after \<open>n\<close> first calls for one model of which the first \<open>j\<close> have
  been resumed.\<close>

definition afterCalls :: "string \<Rightarrow> nat \<Rightarrow> nat \<Rightarrow> loaderState" where
  "afterCalls m n j =
     \<lparr>tiktokenCache = (if j = 0 then {} else {m}),
      tiktokenModule = (0 < n),
      moduleImports = (if n = 0 then 0 else 1),
      encoderLoads = replicate j m,
      loaderCalls = replicate j (m, Returned) @ replicate (n - j) (m, AwaitingModule)\<rparr>"

section \<open>Example inputs\<close>

definition familyPricing :: ModelPricing where
  "familyPricing = \<lparr>pr_input = 30, pr_output = 60, pr_cacheWrite = 0, pr_cacheRead = 0\<rparr>"

definition variantPricing :: ModelPricing where
  "variantPricing = \<lparr>pr_input = 5, pr_output = 15, pr_cacheWrite = 0, pr_cacheRead = 0\<rparr>"

definition exampleCatalog :: pricingData where
  "exampleCatalog = [(''gpt-4'', familyPricing), (''gpt-4o'', variantPricing),
                     (''default'', fallbackPricing)]"

definition failingVendor :: vendor where
  "failingVendor =
     \<lparr>loadTiktokenEncoder = (\<lambda>m. TiktokenThrows),
      loadTransformersTokenizer = (\<lambda>h. TransformersNull)\<rparr>"

definition approxModel :: TokenModel where
  "approxModel = \<lparr>tm_name = ''approx'', tm_spec = Approx\<rparr>"

definition cacheWriteUsage :: "int \<Rightarrow> TokenUsage" where
  "cacheWriteUsage w =
     \<lparr>tu_input = Some 0, tu_output = Some 0, tu_reasoning = Some 0,
      tu_cacheRead = Some 0, tu_cacheWrite = Some w\<rparr>"

definition smallExport :: ExportedSession where
  "smallExport =
     \<lparr>es_messages =
        [\<lparr>em_role = ''assistant'', em_system = None, em_tools = None,
          em_tokens = Some (cacheWriteUsage 100), em_parts = []\<rparr>]\<rparr>"

definition scenarioB :: ExportedSession where
  "scenarioB =
     \<lparr>es_messages =
        [\<lparr>em_role = ''user'', em_system = None,
          em_tools = Some [(''bash'', True), (''read'', True), (''write'', True), (''edit'', True),
                           (''glob'', True), (''grep'', True), (''list'', True), (''task'', True),
                           (''todo'', True), (''fetch'', True)],
          em_tokens = None, em_parts = []\<rparr>,
         \<lparr>em_role = ''assistant'', em_system = None, em_tools = None,
          em_tokens = Some (cacheWriteUsage 5000), em_parts = []\<rparr>]\<rparr>"

definition exampleCollected :: Collected where
  "exampleCollected =
     \<lparr>systemPrompts = [],
      userTexts = [\<lparr>src_label = ''User#1'', src_content = ''Hello''\<rparr>],
      assistantTexts = [\<lparr>src_label = ''Assistant#1'', src_content = ''Hi there''\<rparr>],
      toolOutputs = [],
      reasoningTraces = [],
      col_allToolsCalled = [],
      col_toolCallCounts = []\<rparr>"

definition exampleUsage :: TokenUsage where
  "exampleUsage =
     \<lparr>tu_input = Some 10, tu_output = Some 5, tu_reasoning = None,
      tu_cacheRead = Some 2, tu_cacheWrite = Some 0\<rparr>"

definition exampleMessages :: "SessionMessage list" where
  "exampleMessages =
     [\<lparr>mi_role = ''user'', mi_modelID = None, mi_providerID = None, mi_system = None,
       mi_tokens = None, mi_cost = None, parts = [TextPart ''Hello'']\<rparr>,
      \<lparr>mi_role = ''assistant'', mi_modelID = None, mi_providerID = None, mi_system = None,
       mi_tokens = Some exampleUsage, mi_cost = Some (1 / 10000),
       parts = [TextPart ''Hi there'']\<rparr>]"

text \<open>Scenario D of the specification: A has the children B and C, B has the child D, and
  every session has 100 input tokens and a cost of 0.01 of its own. In the cyclic store, A
  and B are each other's child.\<close>

definition usage100 :: TokenUsage where
  "usage100 =
     \<lparr>tu_input = Some 100, tu_output = None, tu_reasoning = None,
      tu_cacheRead = None, tu_cacheWrite = None\<rparr>"

definition ownUsage :: "SessionMessage list" where
  "ownUsage =
     [\<lparr>mi_role = ''assistant'', mi_modelID = None, mi_providerID = None, mi_system = None,
       mi_tokens = Some usage100, mi_cost = Some (1 / 100), parts = []\<rparr>]"

definition sessionA :: ChildSession where "sessionA = \<lparr>cs_id = ''A'', cs_title = ''main''\<rparr>"
definition sessionB :: ChildSession where "sessionB = \<lparr>cs_id = ''B'', cs_title = ''explore''\<rparr>"
definition sessionC :: ChildSession where "sessionC = \<lparr>cs_id = ''C'', cs_title = ''review''\<rparr>"
definition sessionD :: ChildSession where "sessionD = \<lparr>cs_id = ''D'', cs_title = ''search''\<rparr>"

definition scenarioD :: client where
  "scenarioD =
     \<lparr>session_children =
        (\<lambda>i. if i = ''A'' then Some [sessionB, sessionC]
             else if i = ''B'' then Some [sessionD]
             else Some []),
      session_messages = (\<lambda>i. Some ownUsage)\<rparr>"

definition treeD :: stree where
  "treeD = Node sessionA [Node sessionB [Node sessionD []], Node sessionC []]"

definition failingStore :: client where
  "failingStore = \<lparr>session_children = (\<lambda>i. None), session_messages = (\<lambda>i. None)\<rparr>"

definition cyclicStore :: client where
  "cyclicStore =
     \<lparr>session_children =
        (\<lambda>i. if i = ''A'' then Some [sessionB]
             else if i = ''B'' then Some [sessionA]
             else Some []),
      session_messages = (\<lambda>i. Some ownUsage)\<rparr>"

text \<open>A transcript with one call of the skill \<open>research\<close> whose output ends in a space, and
  scenario C of the specification: three calls of \<open>research\<close>, under a tokenizer that
  counts 120 tokens.\<close>

definition skillState :: "string \<Rightarrow> string \<Rightarrow> ToolState" where
  "skillState name out =
     \<lparr>ts_status = StatusCompleted, ts_inputName = Some name, ts_output = Some out,
      ts_title = None, ts_metadataName = None\<rparr>"

definition skillCall :: "string \<Rightarrow> string \<Rightarrow> SessionMessage" where
  "skillCall name out =
     \<lparr>mi_role = ''assistant'', mi_modelID = None, mi_providerID = None, mi_system = None,
      mi_tokens = None, mi_cost = None, parts = [ToolPart ''skill'' (skillState name out)]\<rparr>"

definition trailingTranscript :: "SessionMessage list" where
  "trailingTranscript = [skillCall ''research'' ''abcd '']"

definition countingVendor :: vendor where
  "countingVendor =
     \<lparr>loadTiktokenEncoder = (\<lambda>m. TiktokenEncoder (\<lambda>content. Some 120)),
      loadTransformersTokenizer = (\<lambda>h. TransformersNull)\<rparr>"

definition gpt4Model :: TokenModel where
  "gpt4Model = \<lparr>tm_name = ''gpt-4'', tm_spec = Tiktoken ''gpt-4''\<rparr>"

definition scenarioC :: "SessionMessage list" where
  "scenarioC =
     [skillCall ''research'' ''Search first.'', skillCall ''research'' ''Search first.'',
      skillCall ''research'' ''Search first.'']"

text \<open>The first \<open>countTokens\<close> calls of the five \<open>buildCategory\<close> calls that \<open>analyze\<close>
  starts together with \<open>Promise.all\<close>, followed by their resumptions; and the same model
  requested again after a first call has finished.\<close>

definition fiveFirstCalls :: "loaderEvent list" where
  "fiveFirstCalls =
     [CountTokens ''You are an assistant.'' gpt4Model, CountTokens ''Hello'' gpt4Model,
      CountTokens ''Hi there'' gpt4Model, CountTokens ''README.md'' gpt4Model,
      CountTokens ''Greet the user.'' gpt4Model,
      Resume 0, Resume 1, Resume 2, Resume 3, Resume 4]"

definition oneAfterAnother :: "loaderEvent list" where
  "oneAfterAnother =
     [CountTokens ''Hello'' gpt4Model, Resume 0, CountTokens ''Hi there'' gpt4Model,
      CountTokens ''README.md'' gpt4Model]"

section \<open>Evaluating the model on the examples\<close>

text \<open>The ceiling in \<open>approximateTokenCount\<close> as an integer division, and the unfoldings
  that compute the source's functions on the example inputs.\<close>

lemma approximateTokenCount_div: "approximateTokenCount s = (int (length s) + 3) div 4"
proof -
  have "\<lceil>real (length s) / 4\<rceil> = \<lceil>real_of_int (int (length s)) / real_of_int 4\<rceil>" by simp
  also have "\<dots> = - ((- int (length s)) div 4)"
    by (simp only: ceiling_divide_eq_div)
  also have "\<dots> = (int (length s) + 3) div 4" by presburger
  finally show ?thesis by (simp add: approximateTokenCount_def)
qed

lemmas context_eval = estimateContextFromCacheTokens_def extractEnabledTools_def
  collectToolCalls_def mapSet_def usageOf_def numberOr0_def cacheWriteUsage_def
  initialBreakdown_def Let_def

lemmas pricing_eval = getPricing_def normalizeModelName_def splitPop_def
  startsWith_def toLowerCase_def toLowerCaseChar_def exampleCatalog_def
  familyPricing_def variantPricing_def fallbackPricing_def Let_def char_of_eq_iff

lemmas analysis_eval = analyze_def initialAnalysis_def buildCategory_def applyTelemetryAdjustments_def
  mostRecentWithUsage_def isAssistantWithTelemetry_def usageTotal_def usageOf_def numberOr0_def
  costOr0_def sortByTokensDesc_def slice0_def tokenCount_def countTokens_def trim_def
  isWhiteSpace_def approximateTokenCount_div exampleCollected_def exampleMessages_def
  exampleUsage_def approxModel_def inferredEntry_def Let_def

lemmas skill_eval = getLoadedSkills_def tokenizerCalls_def processPart_def extractSkillName_def
  truthyName_def mapSet_def trim_def isWhiteSpace_def toLoadedSkill_def tokenCount_def
  countTokens_def countWithTiktoken_def approximateTokenCount_div skillCall_def skillState_def
  allParts_def Let_def

section \<open>Context estimate\<close>

text \<open>
  Claim C1, as stated, fails: with a first cache write of 100 tokens and no tool, the
  environment and project-tree constants alone are 650, so the buckets sum to 650 and not
  to \<open>totalCachedContext = 100\<close>.
\<close>

theorem estimate_conservation_counterexample:
  "firstCacheWrite (es_messages smallExport) = 100 \<and>
   totalCachedContext (estimateContextFromCacheTokens smallExport initialBreakdown) = 100 \<and>
   bucketSum (estimateContextFromCacheTokens smallExport initialBreakdown) = 650"
  by (simp add: smallExport_def context_eval bucketSum_def)

text \<open>
  Claim C1, amended. On the estimate path, whenever the first assistant cache-write value
  is positive: \<open>totalCachedContext\<close> is that value, \<open>toolDefinitions\<close> is the number of
  enabled tools times 350, \<open>environmentContext\<close> is 150, \<open>projectTree\<close> is 500,
  \<open>customInstructions\<close> is 0, \<open>baseSystemPrompt\<close> is
  \<open>max(0, total - toolTokens - 150 - 500)\<close>, and every bucket is marked not identified.
  The five buckets sum to \<open>max(total, toolTokens + 650)\<close>: exactly to the total when the
  total is at least \<open>toolTokens + 650\<close>, and to more than the total otherwise.
\<close>

theorem estimate_buckets:
  assumes "0 < firstCacheWrite (es_messages exported)"
  defines "b \<equiv> estimateContextFromCacheTokens exported initialBreakdown"
    and "cached \<equiv> firstCacheWrite (es_messages exported)"
    and "toolTokens \<equiv> int (length (extractEnabledTools exported)) * 350"
  shows "totalCachedContext b = cached \<and>
         tokens (toolDefinitions b) = toolTokens \<and>
         tokens (environmentContext b) = 150 \<and>
         tokens (projectTree b) = 500 \<and>
         tokens (customInstructions b) = 0 \<and>
         tokens (baseSystemPrompt b) = max 0 (cached - toolTokens - 150 - 500) \<and>
         \<not> identified (baseSystemPrompt b) \<and> \<not> identified (toolDefinitions b) \<and>
         \<not> identified (environmentContext b) \<and> \<not> identified (projectTree b) \<and>
         \<not> identified (customInstructions b) \<and>
         bucketSum b = max cached (toolTokens + 150 + 500) \<and>
         (toolTokens + 150 + 500 \<le> cached \<longrightarrow> bucketSum b = cached)"
proof -
  from assms(1) have nz: "firstCacheWrite (es_messages exported) \<noteq> 0" by simp
  have b: "b = initialBreakdown
      \<lparr>toolDefinitions := \<lparr>tokens = toolTokens, identified = False\<rparr>,
       toolCount := int (length (extractEnabledTools exported)),
       environmentContext := \<lparr>tokens = 150, identified = False\<rparr>,
       components := [''working-dir'', ''platform'', ''git-status'', ''date''],
       projectTree := \<lparr>tokens = 500, identified = False\<rparr>,
       baseSystemPrompt := \<lparr>tokens = max 0 (cached - toolTokens - 150 - 500), identified = False\<rparr>,
       totalCachedContext := cached\<rparr>"
    unfolding b_def cached_def toolTokens_def estimateContextFromCacheTokens_def Let_def
    using nz by simp
  show ?thesis
    unfolding b by (simp add: initialBreakdown_def bucketSum_def)
qed

theorem estimate_buckets_witness:
  "0 < firstCacheWrite (es_messages scenarioB) \<and>
   totalCachedContext (estimateContextFromCacheTokens scenarioB initialBreakdown) = 5000 \<and>
   tokens (toolDefinitions (estimateContextFromCacheTokens scenarioB initialBreakdown)) = 3500 \<and>
   tokens (baseSystemPrompt (estimateContextFromCacheTokens scenarioB initialBreakdown)) = 850 \<and>
   bucketSum (estimateContextFromCacheTokens scenarioB initialBreakdown) = 5000"
proof -
  have h: "0 < firstCacheWrite (es_messages scenarioB)"
    by (simp add: scenarioB_def usageOf_def numberOr0_def cacheWriteUsage_def)
  have t: "firstCacheWrite (es_messages scenarioB) = 5000"
    by (simp add: scenarioB_def usageOf_def numberOr0_def cacheWriteUsage_def)
  have n: "int (length (extractEnabledTools scenarioB)) = 10"
    by (simp add: scenarioB_def extractEnabledTools_def mapSet_def Let_def)
  from estimate_buckets [OF h] h t n show ?thesis by simp
qed


section \<open>Pricing lookup\<close>

lemma prefixLoop_first:
  "i < length cat \<Longrightarrow> startsWith lowerModel (toLowerCase (fst (cat ! i))) \<Longrightarrow>
   (\<forall>j<i. \<not> startsWith lowerModel (toLowerCase (fst (cat ! j)))) \<Longrightarrow>
   prefixLoop lowerModel cat = Some (snd (cat ! i))"
proof (induction cat arbitrary: i)
  case Nil
  then show ?case by simp
next
  case (Cons e rest)
  obtain key pricing where e: "e = (key, pricing)" by (cases e)
  show ?case
  proof (cases i)
    case 0
    with Cons.prems e show ?thesis by simp
  next
    case (Suc k)
    from Cons.prems(3) Suc have first: "\<not> startsWith lowerModel (toLowerCase key)"
      using e by force
    have "\<forall>j<k. \<not> startsWith lowerModel (toLowerCase (fst (rest ! j)))"
      using Cons.prems(3) Suc by force
    with Cons.IH [of k] Cons.prems(1,2) Suc
    have "prefixLoop lowerModel rest = Some (snd (rest ! k))" by simp
    with first e Suc show ?thesis by simp
  qed
qed

lemma prefixLoop_none:
  "(\<forall>j<length cat. \<not> startsWith lowerModel (toLowerCase (fst (cat ! j)))) \<Longrightarrow>
   prefixLoop lowerModel cat = None"
proof (induction cat)
  case Nil
  then show ?case by simp
next
  case (Cons e rest)
  obtain key pricing where e: "e = (key, pricing)" by (cases e)
  from Cons.prems have "\<not> startsWith lowerModel (toLowerCase key)"
    using e by force
  moreover have "\<forall>j<length rest. \<not> startsWith lowerModel (toLowerCase (fst (rest ! j)))"
    using Cons.prems by force
  ultimately show ?case using Cons.IH e by simp
qed

lemma splitPop_strip:
  assumes "CHR ''/'' \<notin> set base"
  shows "splitPop (pre @ CHR ''/'' # base) = base"
proof -
  have "takeWhile (\<lambda>c. c \<noteq> CHR ''/'') (rev base @ CHR ''/'' # rev pre) =
      rev base @ takeWhile (\<lambda>c. c \<noteq> CHR ''/'') (CHR ''/'' # rev pre)"
    using assms by (intro takeWhile_append2) auto
  then have "takeWhile (\<lambda>c. c \<noteq> CHR ''/'') (rev base @ CHR ''/'' # rev pre) = rev base"
    by simp
  then show ?thesis by (simp add: splitPop_def)
qed

lemma normalizeModelName_strip:
  "(CHR ''/'' \<notin> set name \<longrightarrow> normalizeModelName name = name) \<and>
   (CHR ''/'' \<notin> set base \<and> base \<noteq> [] \<longrightarrow> normalizeModelName (pre @ CHR ''/'' # base) = base)"
proof (intro conjI impI)
  assume "CHR ''/'' \<notin> set name"
  then show "normalizeModelName name = name" by (simp add: normalizeModelName_def)
next
  assume a: "CHR ''/'' \<notin> set base \<and> base \<noteq> []"
  then have "splitPop (pre @ CHR ''/'' # base) = base" by (simp add: splitPop_strip)
  with a show "normalizeModelName (pre @ CHR ''/'' # base) = base"
    by (simp add: normalizeModelName_def)
qed

text \<open>
  Claim C2, as stated, fails: with the keys \<open>gpt-4\<close> and \<open>gpt-4o\<close> in this order, the
  name \<open>openai/gpt-4o-mini\<close> gets the pricing of \<open>gpt-4\<close>, the first key that is a prefix,
  and not that of the longest prefix \<open>gpt-4o\<close>.
\<close>

theorem getPricing_longest_prefix_counterexample:
  "getPricing exampleCatalog ''openai/gpt-4o-mini'' = familyPricing \<and>
   spec_getPricing exampleCatalog ''openai/gpt-4o-mini'' = variantPricing \<and>
   familyPricing \<noteq> variantPricing"
  by (simp add: pricing_eval spec_getPricing_def ciPrefixKey_def)

text \<open>
  Claim C2, amended. \<open>getPricing\<close> strips the vendor prefix (a name without a slash is
  kept, and of \<open>vendor/model\<close> the model is kept), returns the exact-match entry if there
  is one, otherwise the first entry in the catalog's enumeration order whose key
  is a case-insensitive prefix of the normalized name, otherwise the \<open>default\<close> entry (and
  a built-in pricing when the catalog has none).
\<close>

theorem getPricing_first_prefix:
  "(CHR ''/'' \<notin> set base \<and> base \<noteq> [] \<longrightarrow> normalizeModelName (pre @ ''/'' @ base) = base) \<and>
   (CHR ''/'' \<notin> set name \<longrightarrow> normalizeModelName name = name) \<and>
   (map_of cat (normalizeModelName name) = Some p \<longrightarrow> getPricing cat name = p) \<and>
   (map_of cat (normalizeModelName name) = None \<and> i < length cat \<and>
    ciPrefixKey (normalizeModelName name) (fst (cat ! i)) \<and>
    (\<forall>j<i. \<not> ciPrefixKey (normalizeModelName name) (fst (cat ! j)))
      \<longrightarrow> getPricing cat name = snd (cat ! i)) \<and>
   (map_of cat (normalizeModelName name) = None \<and>
    (\<forall>j<length cat. \<not> ciPrefixKey (normalizeModelName name) (fst (cat ! j)))
      \<longrightarrow> getPricing cat name =
            (case map_of cat ''default'' of Some d \<Rightarrow> d | None \<Rightarrow> fallbackPricing))"
proof (intro conjI impI)
  assume "CHR ''/'' \<notin> set base \<and> base \<noteq> []"
  then have "normalizeModelName (pre @ CHR ''/'' # base) = base"
    by (simp add: normalizeModelName_strip)
  then show "normalizeModelName (pre @ ''/'' @ base) = base" by simp
next
  assume "CHR ''/'' \<notin> set name"
  then show "normalizeModelName name = name" by (simp add: normalizeModelName_strip)
next
  assume "map_of cat (normalizeModelName name) = Some p"
  then show "getPricing cat name = p" by (simp add: getPricing_def)
next
  assume a: "map_of cat (normalizeModelName name) = None \<and> i < length cat \<and>
    ciPrefixKey (normalizeModelName name) (fst (cat ! i)) \<and>
    (\<forall>j<i. \<not> ciPrefixKey (normalizeModelName name) (fst (cat ! j)))"
  then have "prefixLoop (toLowerCase (normalizeModelName name)) cat = Some (snd (cat ! i))"
    by (intro prefixLoop_first) (simp_all add: ciPrefixKey_def)
  with a show "getPricing cat name = snd (cat ! i)" by (simp add: getPricing_def)
next
  assume a: "map_of cat (normalizeModelName name) = None \<and>
    (\<forall>j<length cat. \<not> ciPrefixKey (normalizeModelName name) (fst (cat ! j)))"
  then have "prefixLoop (toLowerCase (normalizeModelName name)) cat = None"
    by (intro prefixLoop_none) (simp add: ciPrefixKey_def)
  with a show "getPricing cat name =
            (case map_of cat ''default'' of Some d \<Rightarrow> d | None \<Rightarrow> fallbackPricing)"
    by (simp add: getPricing_def)
qed

theorem getPricing_first_prefix_witness:
  "normalizeModelName (''openai'' @ ''/'' @ ''gpt-4o'') = ''gpt-4o'' \<and>
   normalizeModelName ''claude-3'' = ''claude-3'' \<and>
   getPricing exampleCatalog ''openai/gpt-4o'' = variantPricing \<and>
   getPricing exampleCatalog ''openai/GPT-4o-mini'' = familyPricing \<and>
   getPricing exampleCatalog ''claude-3'' = fallbackPricing"
proof -
  have e0: "CHR ''/'' \<notin> set ''gpt-4o'' \<and> ''gpt-4o'' \<noteq> []" by simp
  have e0': "CHR ''/'' \<notin> set ''claude-3''" by simp
  have e1: "map_of exampleCatalog (normalizeModelName ''openai/gpt-4o'') = Some variantPricing"
    by (simp add: pricing_eval)
  have e2: "map_of exampleCatalog (normalizeModelName ''openai/GPT-4o-mini'') = None \<and>
      (0::nat) < length exampleCatalog \<and>
      ciPrefixKey (normalizeModelName ''openai/GPT-4o-mini'') (fst (exampleCatalog ! 0)) \<and>
      (\<forall>j<(0::nat). \<not> ciPrefixKey (normalizeModelName ''openai/GPT-4o-mini'') (fst (exampleCatalog ! j)))"
    by (simp add: pricing_eval ciPrefixKey_def)
  have e3: "map_of exampleCatalog (normalizeModelName ''claude-3'') = None \<and>
      (\<forall>j<length exampleCatalog. \<not> ciPrefixKey (normalizeModelName ''claude-3'') (fst (exampleCatalog ! j)))"
    by (simp add: pricing_eval ciPrefixKey_def less_Suc_eq numeral_3_eq_3 all_conj_distrib)
  have r0: "normalizeModelName (''openai'' @ ''/'' @ ''gpt-4o'') = ''gpt-4o''"
    using getPricing_first_prefix [where base = "''gpt-4o''" and pre = "''openai''"] e0 by blast
  have r0': "normalizeModelName ''claude-3'' = ''claude-3''"
    using getPricing_first_prefix [where name = "''claude-3''"] e0' by blast
  have r1: "getPricing exampleCatalog ''openai/gpt-4o'' = variantPricing"
    using getPricing_first_prefix [where cat = exampleCatalog and name = "''openai/gpt-4o''"
        and p = variantPricing] e1 by blast
  have r2: "getPricing exampleCatalog ''openai/GPT-4o-mini'' = snd (exampleCatalog ! 0)"
    using getPricing_first_prefix [where cat = exampleCatalog and name = "''openai/GPT-4o-mini''"
        and i = 0] e2 by blast
  have r3: "getPricing exampleCatalog ''claude-3'' =
      (case map_of exampleCatalog ''default'' of Some d \<Rightarrow> d | None \<Rightarrow> fallbackPricing)"
    using getPricing_first_prefix [where cat = exampleCatalog and name = "''claude-3''"] e3 by blast
  from r0 r0' r1 r2 r3 show ?thesis by (simp add: exampleCatalog_def)
qed


section \<open>Approximate tokenizer\<close>

lemma trim_empty_iff: "trim s = [] \<longleftrightarrow> (\<forall>c\<in>set s. isWhiteSpace c)"
proof
  assume "trim s = []"
  then have "dropWhile isWhiteSpace (rev (dropWhile isWhiteSpace s)) = []"
    by (simp add: trim_def)
  then have all: "\<forall>c\<in>set (dropWhile isWhiteSpace s). isWhiteSpace c"
    by simp
  have "dropWhile isWhiteSpace s = []"
  proof (cases "dropWhile isWhiteSpace s")
    case Nil
    then show ?thesis .
  next
    case (Cons y ys)
    then have "\<not> isWhiteSpace y" by (metis hd_dropWhile list.sel(1) list.distinct(1))
    with all Cons show ?thesis by simp
  qed
  then show "\<forall>c\<in>set s. isWhiteSpace c" by simp
next
  assume "\<forall>c\<in>set s. isWhiteSpace c"
  then show "trim s = []" by (auto simp: trim_def dest: set_dropWhileD)
qed

lemma approximateTokenCount_mono:
  "length s \<le> length s' \<Longrightarrow> approximateTokenCount s \<le> approximateTokenCount s'"
  unfolding approximateTokenCount_def
  by (intro ceiling_mono divide_right_mono) simp_all

text \<open>
  Claim C4, as stated, fails on white space: four spaces have length 4, so
  \<open>ceil(length/4)\<close> is 1, but \<open>countTokens\<close> returns 0; and the one-character string
  \<open>a\<close> is shorter and counts 1, so the count is not monotonic in the length.
\<close>

theorem countTokens_approx_counterexample:
  "fst (countTokens failingVendor ''    '' approxModel) = 0 \<and>
   \<lceil>real (length ''    '') / 4\<rceil> = (1::int) \<and>
   length ''a'' \<le> length ''    '' \<and>
   fst (countTokens failingVendor ''a'' approxModel) = 1"
  by (simp add: countTokens_def trim_def isWhiteSpace_def approxModel_def
      approximateTokenCount_div)

text \<open>
  Claim C4, amended. For every string that is not white space only, \<open>countTokens\<close> under
  the approx spec returns \<open>ceil(length/4)\<close> and goes to no backend, and among such strings
  the count is monotonic non-decreasing in the length; for empty or white-space-only
  content it returns 0 for every tokenizer spec and goes to no backend.
\<close>

theorem countTokens_approx:
  "((\<exists>c\<in>set content. \<not> isWhiteSpace c) \<longrightarrow>
      countTokens v content \<lparr>tm_name = n, tm_spec = Approx\<rparr> = (\<lceil>real (length content) / 4\<rceil>, [])) \<and>
   ((\<exists>c\<in>set content. \<not> isWhiteSpace c) \<and> (\<exists>c\<in>set content'. \<not> isWhiteSpace c) \<and>
    length content \<le> length content' \<longrightarrow>
      fst (countTokens v content \<lparr>tm_name = n, tm_spec = Approx\<rparr>)
        \<le> fst (countTokens v content' \<lparr>tm_name = n, tm_spec = Approx\<rparr>)) \<and>
   ((\<forall>c\<in>set content. isWhiteSpace c) \<longrightarrow> countTokens v content tokenModel = (0, []))"
proof (intro conjI impI)
  assume "\<exists>c\<in>set content. \<not> isWhiteSpace c"
  then have "trim content \<noteq> []" by (simp add: trim_empty_iff)
  then show "countTokens v content \<lparr>tm_name = n, tm_spec = Approx\<rparr> = (\<lceil>real (length content) / 4\<rceil>, [])"
    by (simp add: countTokens_def approximateTokenCount_def)
next
  assume a: "(\<exists>c\<in>set content. \<not> isWhiteSpace c) \<and> (\<exists>c\<in>set content'. \<not> isWhiteSpace c) \<and>
    length content \<le> length content'"
  then have "trim content \<noteq> []" and "trim content' \<noteq> []" by (simp_all add: trim_empty_iff)
  then have "fst (countTokens v content \<lparr>tm_name = n, tm_spec = Approx\<rparr>) = approximateTokenCount content"
    and "fst (countTokens v content' \<lparr>tm_name = n, tm_spec = Approx\<rparr>) = approximateTokenCount content'"
    by (simp_all add: countTokens_def)
  with a show "fst (countTokens v content \<lparr>tm_name = n, tm_spec = Approx\<rparr>)
        \<le> fst (countTokens v content' \<lparr>tm_name = n, tm_spec = Approx\<rparr>)"
    by (simp add: approximateTokenCount_mono)
next
  assume "\<forall>c\<in>set content. isWhiteSpace c"
  then have "trim content = []" by (simp add: trim_empty_iff)
  then show "countTokens v content tokenModel = (0, [])" by (simp add: countTokens_def)
qed

theorem countTokens_approx_witness:
  "countTokens failingVendor ''abcde'' approxModel = (2, []) \<and>
   fst (countTokens failingVendor ''a'' approxModel) \<le> fst (countTokens failingVendor ''abcde'' approxModel) \<and>
   countTokens failingVendor ''    '' \<lparr>tm_name = ''gpt-4'', tm_spec = Tiktoken ''gpt-4''\<rparr> = (0, [])"
proof -
  have h1: "\<exists>c\<in>set ''abcde''. \<not> isWhiteSpace c" by (simp add: isWhiteSpace_def)
  have h2: "(\<exists>c\<in>set ''a''. \<not> isWhiteSpace c) \<and> (\<exists>c\<in>set ''abcde''. \<not> isWhiteSpace c) \<and>
    length ''a'' \<le> length ''abcde''" by (simp add: isWhiteSpace_def)
  have h3: "\<forall>c\<in>set ''    ''. isWhiteSpace c" by (simp add: isWhiteSpace_def)
  have c5: "\<lceil>real (length ''abcde'') / 4\<rceil> = (2::int)"
    using approximateTokenCount_div [of "''abcde''"] by (simp add: approximateTokenCount_def)
  from countTokens_approx [where content = "''abcde''" and v = failingVendor and n = "''approx''"] h1 c5
  have r1: "countTokens failingVendor ''abcde'' approxModel = (2, [])"
    by (simp add: approxModel_def)
  from countTokens_approx [where content = "''a''" and content' = "''abcde''" and v = failingVendor and n = "''approx''"] h2
  have r2: "fst (countTokens failingVendor ''a'' approxModel) \<le> fst (countTokens failingVendor ''abcde'' approxModel)"
    unfolding approxModel_def by blast
  from countTokens_approx [where content = "''    ''" and v = failingVendor
      and tokenModel = "\<lparr>tm_name = ''gpt-4'', tm_spec = Tiktoken ''gpt-4''\<rparr>"] h3
  have r3: "countTokens failingVendor ''    '' \<lparr>tm_name = ''gpt-4'', tm_spec = Tiktoken ''gpt-4''\<rparr> = (0, [])"
    by blast
  from r1 r2 r3 show ?thesis by blast
qed

section \<open>Category summaries and telemetry reconciliation\<close>

lemma foldl_add_sum_list:
  "foldl (\<lambda>sum x. sum + f x) a xs = (a::int) + sum_list (map f xs)"
  by (induction xs arbitrary: a) simp_all

lemma sortByTokensDesc_idem: "sortByTokensDesc (sortByTokensDesc es) = sortByTokensDesc es"
  unfolding sortByTokensDesc_def
  by (rule sort_key_id_if_sorted) (rule sorted_sort_key)

lemma buildCategory_invariant:
  assumes "0 \<le> entryLimit"
  shows "categoryInvariant entryLimit (buildCategory v label srcs tokenModel entryLimit)"
  using assms
  by (simp add: categoryInvariant_def buildCategory_def Let_def foldl_add_sum_list
      sortByTokensDesc_idem slice0_def)

lemma inferred_invariant:
  assumes "1 \<le> entryLimit"
  shows "categoryInvariant entryLimit
           (c\<lparr>cat_totalTokens := n, cat_entries := [inferredEntry n],
              cat_allEntries := [inferredEntry n]\<rparr>)"
proof -
  from assms obtain k where "nat entryLimit = Suc k"
    by (cases "nat entryLimit") auto
  then show ?thesis
    by (simp add: categoryInvariant_def sortByTokensDesc_def inferredEntry_def)
qed

lemma categories_applyTelemetryAdjustments:
  "user (categories (applyTelemetryAdjustments a ms)) = user (categories a) \<and>
   assistant (categories (applyTelemetryAdjustments a ms)) = assistant (categories a) \<and>
   tools (categories (applyTelemetryAdjustments a ms)) = tools (categories a) \<and>
   reasoning (categories (applyTelemetryAdjustments a ms)) = reasoning (categories a)"
  by (simp add: applyTelemetryAdjustments_def Let_def)

lemma system_applyTelemetryAdjustments:
  "system (categories (applyTelemetryAdjustments a ms)) =
     (if 0 < inferredSystemTokens a ms \<and> cat_totalTokens (system (categories a)) = 0
      then (system (categories a))
             \<lparr>cat_totalTokens := inferredSystemTokens a ms,
              cat_entries := [inferredEntry (inferredSystemTokens a ms)],
              cat_allEntries := [inferredEntry (inferredSystemTokens a ms)]\<rparr>
      else system (categories a))"
  by (simp add: applyTelemetryAdjustments_def inferredSystemTokens_def Let_def)

lemma unchanged_applyTelemetryAdjustments:
  "sessionID (applyTelemetryAdjustments a ms) = sessionID a \<and>
   model (applyTelemetryAdjustments a ms) = model a \<and>
   allToolsCalled (applyTelemetryAdjustments a ms) = allToolsCalled a \<and>
   toolCallCounts (applyTelemetryAdjustments a ms) = toolCallCounts a"
  by (simp add: applyTelemetryAdjustments_def Let_def)

lemma totalTokens_applyTelemetryAdjustments:
  "totalTokens (applyTelemetryAdjustments a ms) =
     cat_totalTokens (system (categories (applyTelemetryAdjustments a ms))) +
     cat_totalTokens (user (categories a)) + cat_totalTokens (assistant (categories a)) +
     cat_totalTokens (tools (categories a)) + cat_totalTokens (reasoning (categories a))"
  by (simp add: applyTelemetryAdjustments_def Let_def)

text \<open>The limit that the plugin passes to \<open>analyze\<close> is between 1 and 10.\<close>

lemma passedEntryLimit_range:
  assumes "limitMessagesSchema limitMessages"
  shows "1 \<le> passedEntryLimit limitMessages \<and> passedEntryLimit limitMessages \<le> 10"
  using assms
  by (cases limitMessages) (simp_all add: limitMessagesSchema_def passedEntryLimit_def DEFAULT_ENTRY_LIMIT_def)

text \<open>
  A limit of 0 is never passed. With it the system category after reconciliation would
  keep the one inferred entry as its top entry, so the bound in the property below is used.
\<close>

lemma entryLimit_zero:
  "\<not> categoryInvariant 0
       (system (categories (analyze failingVendor ''ses'' exampleCollected exampleMessages approxModel 0)))"
  by (simp add: analysis_eval categoryInvariant_def)

text \<open>
  Claim C6. For every entry limit of at least 1, which covers every limit that the plugin
  passes, before telemetry reconciliation (there already from 0 on) and after it, each of the
  five categories has \<open>totalTokens\<close> equal to the sum of the token
  counts of \<open>allEntries\<close>, and top entries equal to \<open>allEntries\<close> sorted descending by token
  count and truncated to the entry limit. The \<open>allEntries\<close> of a built category are sorted
  descending, and entries with equal token counts keep the order of their sources.
\<close>

theorem category_invariant:
  "(0 \<le> entryLimit \<longrightarrow>
      (\<forall>c\<in>set (categoryList (initialAnalysis v sid collected tokenModel entryLimit)).
         categoryInvariant entryLimit c)) \<and>
   (1 \<le> entryLimit \<longrightarrow>
      (\<forall>c\<in>set (categoryList (analyze v sid collected messages tokenModel entryLimit)).
         categoryInvariant entryLimit c)) \<and>
   sorted (map (\<lambda>e. - entry_tokens e) (cat_allEntries (buildCategory v label srcs tokenModel entryLimit))) \<and>
   filter (\<lambda>e. entry_tokens e = k) (cat_allEntries (buildCategory v label srcs tokenModel entryLimit)) =
     filter (\<lambda>e. entry_tokens e = k) (tokenizeSources v tokenModel srcs)"
proof (intro conjI impI)
  assume "0 \<le> entryLimit"
  then show "\<forall>c\<in>set (categoryList (initialAnalysis v sid collected tokenModel entryLimit)).
         categoryInvariant entryLimit c"
    by (simp add: categoryList_def initialAnalysis_def Let_def buildCategory_invariant)
next
  assume lim: "1 \<le> entryLimit"
  define a where "a = initialAnalysis v sid collected tokenModel entryLimit"
  from lim have before: "\<forall>c\<in>set (categoryList a). categoryInvariant entryLimit c"
    unfolding a_def
    by (simp add: categoryList_def initialAnalysis_def Let_def buildCategory_invariant)
  have sys: "categoryInvariant entryLimit (system (categories (applyTelemetryAdjustments a messages)))"
    using before inferred_invariant [OF lim]
    by (simp add: system_applyTelemetryAdjustments categoryList_def)
  show "\<forall>c\<in>set (categoryList (analyze v sid collected messages tokenModel entryLimit)).
         categoryInvariant entryLimit c"
    using sys before categories_applyTelemetryAdjustments [of a messages]
    by (simp add: analyze_def a_def [symmetric] categoryList_def)
next
  show "sorted (map (\<lambda>e. - entry_tokens e) (cat_allEntries (buildCategory v label srcs tokenModel entryLimit)))"
    by (simp add: buildCategory_def Let_def sortByTokensDesc_def)
next
  have "filter (\<lambda>e. - entry_tokens e = - k) (sort_key (\<lambda>e. - entry_tokens e) (tokenizeSources v tokenModel srcs))
      = filter (\<lambda>e. - entry_tokens e = - k) (tokenizeSources v tokenModel srcs)"
    by (rule sort_key_stable)
  then show "filter (\<lambda>e. entry_tokens e = k) (cat_allEntries (buildCategory v label srcs tokenModel entryLimit)) =
     filter (\<lambda>e. entry_tokens e = k) (tokenizeSources v tokenModel srcs)"
    by (simp add: buildCategory_def Let_def sortByTokensDesc_def)
qed

theorem category_invariant_witness:
  "(0::int) \<le> 3 \<and> (1::int) \<le> 3 \<and>
   categoryInvariant 3
     (user (categories (initialAnalysis failingVendor ''ses'' exampleCollected approxModel 3))) \<and>
   categoryInvariant 3
     (system (categories (analyze failingVendor ''ses'' exampleCollected exampleMessages approxModel 3))) \<and>
   cat_entries (system (categories (analyze failingVendor ''ses'' exampleCollected exampleMessages approxModel 3)))
     = [inferredEntry 10]"
proof -
  note t = category_invariant [where entryLimit = 3 and v = failingVendor and sid = "''ses''"
      and collected = exampleCollected and messages = exampleMessages and tokenModel = approxModel]
  have h0: "(0::int) \<le> 3" and h1: "(1::int) \<le> 3" by simp_all
  from t h0 have "categoryInvariant 3
     (user (categories (initialAnalysis failingVendor ''ses'' exampleCollected approxModel 3)))"
    by (simp add: categoryList_def)
  moreover from t h1 have "categoryInvariant 3
     (system (categories (analyze failingVendor ''ses'' exampleCollected exampleMessages approxModel 3)))"
    by (simp add: categoryList_def)
  moreover have "cat_entries (system (categories (analyze failingVendor ''ses'' exampleCollected exampleMessages approxModel 3)))
     = [inferredEntry 10]"
    by (simp add: analysis_eval)
  ultimately show ?thesis by simp
qed

text \<open>
  Claim C10. \<open>applyTelemetryAdjustments\<close> leaves the user, assistant, tools and reasoning
  summaries unchanged, as well as the session id, the model and the tool-call data. The
  system summary changes only when its locally computed total is 0 and the inferred value
  is positive; its entries are then the single synthetic entry. \<open>totalTokens\<close> is
  recomputed as the sum of the five category totals.
\<close>

theorem applyTelemetryAdjustments_frame:
  "user (categories (applyTelemetryAdjustments a ms)) = user (categories a) \<and>
   assistant (categories (applyTelemetryAdjustments a ms)) = assistant (categories a) \<and>
   tools (categories (applyTelemetryAdjustments a ms)) = tools (categories a) \<and>
   reasoning (categories (applyTelemetryAdjustments a ms)) = reasoning (categories a) \<and>
   system (categories (applyTelemetryAdjustments a ms)) =
     (if 0 < inferredSystemTokens a ms \<and> cat_totalTokens (system (categories a)) = 0
      then \<lparr>cat_label = cat_label (system (categories a)),
            cat_totalTokens = inferredSystemTokens a ms,
            cat_entries = [inferredEntry (inferredSystemTokens a ms)],
            cat_allEntries = [inferredEntry (inferredSystemTokens a ms)]\<rparr>
      else system (categories a)) \<and>
   sessionID (applyTelemetryAdjustments a ms) = sessionID a \<and>
   model (applyTelemetryAdjustments a ms) = model a \<and>
   allToolsCalled (applyTelemetryAdjustments a ms) = allToolsCalled a \<and>
   toolCallCounts (applyTelemetryAdjustments a ms) = toolCallCounts a \<and>
   totalTokens (applyTelemetryAdjustments a ms) =
     sum_list (map cat_totalTokens (categoryList (applyTelemetryAdjustments a ms)))"
proof -
  have sys: "system (categories (applyTelemetryAdjustments a ms)) =
     (if 0 < inferredSystemTokens a ms \<and> cat_totalTokens (system (categories a)) = 0
      then \<lparr>cat_label = cat_label (system (categories a)),
            cat_totalTokens = inferredSystemTokens a ms,
            cat_entries = [inferredEntry (inferredSystemTokens a ms)],
            cat_allEntries = [inferredEntry (inferredSystemTokens a ms)]\<rparr>
      else system (categories a))"
    unfolding system_applyTelemetryAdjustments by simp
  have tot: "totalTokens (applyTelemetryAdjustments a ms) =
     sum_list (map cat_totalTokens (categoryList (applyTelemetryAdjustments a ms)))"
    using totalTokens_applyTelemetryAdjustments [of a ms]
      categories_applyTelemetryAdjustments [of a ms]
    by (simp add: categoryList_def)
  from sys tot categories_applyTelemetryAdjustments [of a ms]
    unchanged_applyTelemetryAdjustments [of a ms]
  show ?thesis by blast
qed

theorem applyTelemetryAdjustments_frame_witness:
  "0 < inferredSystemTokens (initialAnalysis failingVendor ''ses'' exampleCollected approxModel 3) exampleMessages \<and>
   cat_totalTokens (system (categories (initialAnalysis failingVendor ''ses'' exampleCollected approxModel 3))) = 0 \<and>
   system (categories (applyTelemetryAdjustments
       (initialAnalysis failingVendor ''ses'' exampleCollected approxModel 3) exampleMessages)) =
     \<lparr>cat_label = ''system'', cat_totalTokens = 10,
      cat_entries = [inferredEntry 10], cat_allEntries = [inferredEntry 10]\<rparr>"
proof -
  have i: "inferredSystemTokens (initialAnalysis failingVendor ''ses'' exampleCollected approxModel 3) exampleMessages = 10"
    by (simp add: inferredSystemTokens_def analysis_eval)
  have z: "cat_totalTokens (system (categories (initialAnalysis failingVendor ''ses'' exampleCollected approxModel 3))) = 0"
    by (simp add: analysis_eval)
  have l: "cat_label (system (categories (initialAnalysis failingVendor ''ses'' exampleCollected approxModel 3))) = ''system''"
    by (simp add: analysis_eval)
  from applyTelemetryAdjustments_frame
      [of "initialAnalysis failingVendor ''ses'' exampleCollected approxModel 3" exampleMessages] i z l
  show ?thesis by simp
qed


section \<open>Subagent aggregation and traversal\<close>

lemma aggregate_Nil: "aggregate [] = emptyAnalysis"
  by (simp add: aggregate_def emptyAnalysis_def)

lemma addSummary_aggregate:
  "addSummary (aggregate xs) (analyzeChildSession cl cat child) =
     aggregate (xs @ ownSummaries cl cat [child])"
  by (cases "analyzeChildSession cl cat child")
    (simp_all add: addSummary_def aggregate_def ownSummaries_def)

lemma addNested_aggregate: "addNested (aggregate xs) (aggregate ys) = aggregate (xs @ ys)"
  by (simp add: addNested_def aggregate_def)

lemma ownSummaries_append:
  "ownSummaries cl cat (xs @ ys) = ownSummaries cl cat xs @ ownSummaries cl cat ys"
  by (simp add: ownSummaries_def)

lemma forEach_children:
  assumes "\<forall>k\<in>set ks. analyzeChildSessions cl cat (cs_id (rootOf k)) = Some (aggregate (S k))"
  shows "forEach
           (\<lambda>child result.
              Option.bind (analyzeChildSessions cl cat (cs_id child))
                (\<lambda>nestedAnalysis.
                   Some (addNested (addSummary result (analyzeChildSession cl cat child))
                           nestedAnalysis)))
           (map rootOf ks) (aggregate acc)
         = Some (aggregate (acc @ concat (map (\<lambda>k. ownSummaries cl cat [rootOf k] @ S k) ks)))"
  using assms
proof (induction ks arbitrary: acc)
  case Nil
  then show ?case by simp
next
  case (Cons k ks)
  from Cons.prems have k: "analyzeChildSessions cl cat (cs_id (rootOf k)) = Some (aggregate (S k))"
    and rest: "\<forall>k\<in>set ks. analyzeChildSessions cl cat (cs_id (rootOf k)) = Some (aggregate (S k))"
    by simp_all
  have step: "addNested (addSummary (aggregate acc) (analyzeChildSession cl cat (rootOf k))) (aggregate (S k))
      = aggregate ((acc @ ownSummaries cl cat [rootOf k]) @ S k)"
    by (simp only: addSummary_aggregate addNested_aggregate)
  show ?case
    using Cons.IH [OF rest, of "(acc @ ownSummaries cl cat [rootOf k]) @ S k"]
    by (simp add: k step)
qed

lemma ownSummaries_descendants:
  "ownSummaries cl cat (concat (map (\<lambda>k. rootOf k # descendants k) ks)) =
     concat (map (\<lambda>k. ownSummaries cl cat [rootOf k] @ ownSummaries cl cat (descendants k)) ks)"
proof (induction ks)
  case Nil
  then show ?case by (simp add: ownSummaries_def)
next
  case (Cons k ks)
  have "ownSummaries cl cat (concat (map (\<lambda>k. rootOf k # descendants k) (k # ks))) =
      ownSummaries cl cat ([rootOf k] @ descendants k @
        concat (map (\<lambda>k. rootOf k # descendants k) ks))"
    by simp
  also have "\<dots> = ownSummaries cl cat [rootOf k] @ ownSummaries cl cat (descendants k) @
      ownSummaries cl cat (concat (map (\<lambda>k. rootOf k # descendants k) ks))"
    by (simp only: ownSummaries_append)
  finally show ?case by (simp add: Cons.IH)
qed

lemma analyzeChildSessions_tree:
  "conforms cl t \<Longrightarrow>
   analyzeChildSessions cl cat (cs_id (rootOf t)) =
     Some (aggregate (ownSummaries cl cat (descendants t)))"
proof (induction t)
  case (Node d ks)
  from Node.prems have ch: "childrenOf cl (cs_id d) = map rootOf ks"
    and sub: "\<forall>k\<in>set ks. conforms cl k" by simp_all
  from Node.IH sub
  have ih: "\<forall>k\<in>set ks. analyzeChildSessions cl cat (cs_id (rootOf k)) =
      Some (aggregate (ownSummaries cl cat (descendants k)))" by simp
  show ?case
  proof (cases "session_children cl (cs_id d)")
    case None
    with ch have "ks = []" by (simp add: childrenOf_def)
    with None show ?thesis
      by (subst analyzeChildSessions.simps)
        (simp add: aggregate_Nil ownSummaries_def)
  next
    case (Some cs)
    with ch have cs: "cs = map rootOf ks" by (simp add: childrenOf_def)
    have "analyzeChildSessions cl cat (cs_id d) =
        forEach
           (\<lambda>child result.
              Option.bind (analyzeChildSessions cl cat (cs_id child))
                (\<lambda>nestedAnalysis.
                   Some (addNested (addSummary result (analyzeChildSession cl cat child))
                           nestedAnalysis)))
           (map rootOf ks) (aggregate [])"
      by (subst analyzeChildSessions.simps) (simp only: Some cs option.case aggregate_Nil)
    also have "\<dots> = Some (aggregate ([] @ concat (map (\<lambda>k. ownSummaries cl cat [rootOf k]
          @ ownSummaries cl cat (descendants k)) ks)))"
      by (rule forEach_children [OF ih])
    finally show ?thesis
      by (simp add: ownSummaries_descendants)
  qed
qed

lemma forEach_calls:
  "forEach (\<lambda>child result. Option.bind (f child) (\<lambda>nested. Some (g result child nested))) xs s = Some r
   \<Longrightarrow> child \<in> set xs \<Longrightarrow> f child \<noteq> None"
proof (induction xs arbitrary: s)
  case Nil
  then show ?case by simp
next
  case (Cons x xs)
  from Cons.prems(1) obtain n where n: "f x = Some n"
    by (cases "f x") simp_all
  with Cons.prems(1)
  have rest: "forEach (\<lambda>child result. Option.bind (f child) (\<lambda>nested. Some (g result child nested)))
      xs (g s x n) = Some r"
    by simp
  show ?case
  proof (cases "child = x")
    case True
    with n show ?thesis by simp
  next
    case False
    with Cons.prems(2) have "child \<in> set xs" by simp
    from Cons.IH [OF rest this] show ?thesis .
  qed
qed

lemma reaches_child:
  assumes "reaches cl pid x" and "onCycle cl x"
  shows "\<exists>child\<in>set (childrenOf cl pid). \<exists>y. reaches cl (cs_id child) y \<and> onCycle cl y"
  using assms
proof (cases rule: reaches.cases)
  case here
  with assms(2) show ?thesis by (auto simp: onCycle_def)
next
  case (down child)
  with assms(2) show ?thesis by blast
qed

lemma analyzeChildSessions_no_cycle:
  "analyzeChildSessions cl cat pid = Some r \<Longrightarrow> \<not> (\<exists>x. reaches cl pid x \<and> onCycle cl x)"
proof (induction cl cat pid r rule: analyzeChildSessions.raw_induct [rotated 1, consumes 1, case_names call])
  case (call self cl cat pid r)
  note IH = call.IH and body = call.hyps
  show ?case
  proof
    assume "\<exists>x. reaches cl pid x \<and> onCycle cl x"
    then obtain x where "reaches cl pid x" and "onCycle cl x" by blast
    from reaches_child [OF this]
    obtain child y where child: "child \<in> set (childrenOf cl pid)"
      and y: "reaches cl (cs_id child) y" "onCycle cl y" by blast
    from child obtain cs where cs: "session_children cl pid = Some cs" and mem: "child \<in> set cs"
      by (cases "session_children cl pid") (simp_all add: childrenOf_def)
    from body cs have "forEach
            (\<lambda>child result.
               Option.bind (self cl cat (cs_id child))
                 (\<lambda>nestedAnalysis.
                    Some (addNested
                            (addSummary result (analyzeChildSession cl cat child))
                            nestedAnalysis)))
            cs emptyAnalysis = Some r"
      by simp
    from forEach_calls [of "\<lambda>child. self cl cat (cs_id child)"
        "\<lambda>result child nested. addNested (addSummary result (analyzeChildSession cl cat child)) nested",
        OF this mem]
    obtain n where "self cl cat (cs_id child) = Some n" by blast
    from IH [OF this] y show False by blast
  qed
qed

lemma onCycle_cyclicStore: "reaches cyclicStore ''A'' ''A'' \<and> onCycle cyclicStore ''A''"
proof -
  have b: "sessionB \<in> set (childrenOf cyclicStore ''A'')"
    by (simp add: childrenOf_def cyclicStore_def)
  have a: "sessionA \<in> set (childrenOf cyclicStore ''B'')"
    by (simp add: childrenOf_def cyclicStore_def)
  have "reaches cyclicStore (cs_id sessionA) ''A''"
    by (simp add: sessionA_def reaches.here)
  with a have "reaches cyclicStore ''B'' ''A''" by (rule reaches.down)
  then have "reaches cyclicStore (cs_id sessionB) ''A''" by (simp add: sessionB_def)
  with b show ?thesis by (auto simp: onCycle_def intro: reaches.here)
qed

lemma conforms_treeD: "conforms scenarioD treeD"
  by (simp add: treeD_def scenarioD_def childrenOf_def sessionA_def sessionB_def sessionC_def
      sessionD_def)

lemma descendants_treeD: "descendants treeD = [sessionB, sessionD, sessionC]"
  by (simp add: treeD_def)

lemma ownSummary_scenarioD:
  "analyzeChildSession scenarioD exampleCatalog child =
     Some \<lparr>ss_sessionID = cs_id child, ss_title = cs_title child,
           ss_agentType = extractAgentType (cs_title child),
           ss_inputTokens = 100, ss_outputTokens = 0, ss_reasoningTokens = 0,
           ss_cacheReadTokens = 0, ss_cacheWriteTokens = 0, ss_totalTokens = 100,
           ss_apiCost = 1 / 100, ss_estimatedCost = 1 / 10000,
           ss_assistantMessageCount = 1\<rparr>"
  by (simp add: analyzeChildSession_def scenarioD_def ownUsage_def usage100_def usageOf_def
      numberOr0_def costOr0_def pricing_eval Let_def)

text \<open>
  Claim C3, as stated, fails on its own scenario: \<open>analyzeChildSessions\<close> on A sums the
  descendants B, D and C and leaves out the usage of A itself, so the totals are 300 tokens
  and 0.03, not 400 and 0.04. The flattened list has the three descendants.
\<close>

theorem subagent_aggregation_counterexample:
  "map_option sa_totalTokens (analyzeChildSessions scenarioD exampleCatalog ''A'') = Some 300 \<and>
   map_option totalApiCost (analyzeChildSessions scenarioD exampleCatalog ''A'') = Some (3 / 100) \<and>
   map_option (map ss_sessionID \<circ> subagents)
     (analyzeChildSessions scenarioD exampleCatalog ''A'') = Some [''B'', ''D'', ''C'']"
proof -
  have "analyzeChildSessions scenarioD exampleCatalog (cs_id (rootOf treeD)) =
      Some (aggregate (ownSummaries scenarioD exampleCatalog (descendants treeD)))"
    by (rule analyzeChildSessions_tree [OF conforms_treeD])
  then have "analyzeChildSessions scenarioD exampleCatalog ''A'' =
      Some (aggregate (ownSummaries scenarioD exampleCatalog [sessionB, sessionD, sessionC]))"
    by (simp add: descendants_treeD) (simp add: treeD_def sessionA_def)
  then show ?thesis
    by (simp add: aggregate_def ownSummaries_def ownSummary_scenarioD sessionB_def sessionC_def
        sessionD_def)
qed

text \<open>
  Claim C3, amended. For every store that conforms to a finite session tree (of any depth
  and branching), \<open>analyzeChildSessions\<close> on the root returns, and its result has the own
  summaries of all proper descendants with messages, in preorder, as the flattened list,
  and as totals (tokens per class, API cost, estimated cost, assistant-turn count) the sums
  over these summaries. The root's own usage is not part of the totals.
\<close>

theorem subagent_aggregation:
  "conforms cl t \<Longrightarrow>
   analyzeChildSessions cl pricingData (cs_id (rootOf t)) =
     Some (aggregate (ownSummaries cl pricingData (descendants t)))"
  by (rule analyzeChildSessions_tree)

theorem subagent_aggregation_witness:
  "conforms scenarioD treeD \<and>
   analyzeChildSessions scenarioD exampleCatalog (cs_id (rootOf treeD)) =
     Some (aggregate (ownSummaries scenarioD exampleCatalog (descendants treeD))) \<and>
   descendants treeD = [sessionB, sessionD, sessionC] \<and>
   sa_totalTokens (aggregate (ownSummaries scenarioD exampleCatalog (descendants treeD))) = 300"
proof -
  have "sa_totalTokens (aggregate (ownSummaries scenarioD exampleCatalog (descendants treeD))) = 300"
    by (simp add: descendants_treeD aggregate_def ownSummaries_def ownSummary_scenarioD)
  with subagent_aggregation [OF conforms_treeD, of exampleCatalog] conforms_treeD descendants_treeD
  show ?thesis by simp
qed

text \<open>
  Claim C8, as stated, fails: no visited set exists, and on a store where A and B are each
  other's child the call on A never returns.
\<close>

theorem analyzeChildSessions_cycle_counterexample:
  "analyzeChildSessions cyclicStore exampleCatalog ''A'' = None"
proof (cases "analyzeChildSessions cyclicStore exampleCatalog ''A''")
  case None
  then show ?thesis .
next
  case (Some r)
  from analyzeChildSessions_no_cycle [OF this] onCycle_cyclicStore show ?thesis by blast
qed


text \<open>
  Claim C8, amended. \<open>analyzeChildSessions\<close> tracks no visited session ids. It returns
  whenever the child sessions reachable from the root form a finite tree, and a failing
  children lookup ends the recursion into that branch with the empty result. Whenever the
  root reaches a session that is on a cycle, the call never returns.
\<close>

theorem analyzeChildSessions_returns:
  "(conforms cl t \<longrightarrow> analyzeChildSessions cl pricingData (cs_id (rootOf t)) \<noteq> None) \<and>
   (session_children cl pid = None \<longrightarrow> analyzeChildSessions cl pricingData pid = Some emptyAnalysis) \<and>
   (reaches cl pid x \<and> onCycle cl x \<longrightarrow> analyzeChildSessions cl pricingData pid = None)"
proof (intro conjI impI)
  assume "conforms cl t"
  then show "analyzeChildSessions cl pricingData (cs_id (rootOf t)) \<noteq> None"
    by (simp add: analyzeChildSessions_tree)
next
  assume "session_children cl pid = None"
  then show "analyzeChildSessions cl pricingData pid = Some emptyAnalysis"
    by (subst analyzeChildSessions.simps) simp
next
  assume cyc: "reaches cl pid x \<and> onCycle cl x"
  show "analyzeChildSessions cl pricingData pid = None"
  proof (cases "analyzeChildSessions cl pricingData pid")
    case None
    then show ?thesis .
  next
    case (Some r)
    from analyzeChildSessions_no_cycle [OF this] cyc show ?thesis by blast
  qed
qed

theorem analyzeChildSessions_returns_witness:
  "conforms scenarioD treeD \<and>
   analyzeChildSessions scenarioD exampleCatalog (cs_id (rootOf treeD)) \<noteq> None \<and>
   session_children failingStore ''A'' = None \<and>
   analyzeChildSessions failingStore exampleCatalog ''A'' = Some emptyAnalysis \<and>
   reaches cyclicStore ''A'' ''A'' \<and> onCycle cyclicStore ''A'' \<and>
   analyzeChildSessions cyclicStore exampleCatalog ''A'' = None"
proof -
  have f: "session_children failingStore ''A'' = None" by (simp add: failingStore_def)
  from analyzeChildSessions_returns [of scenarioD treeD exampleCatalog "''A''" "''A''"]
    analyzeChildSessions_returns [of failingStore treeD exampleCatalog "''A''" "''A''"]
    analyzeChildSessions_returns [of cyclicStore treeD exampleCatalog "''A''" "''A''"]
    conforms_treeD f onCycle_cyclicStore
  show ?thesis by blast
qed


section \<open>Skill billing multiplier\<close>

lemma map_of_replace:
  "map_of (map (\<lambda>e. if fst e = k then (k, v) else e) m) k' =
     (if k' = k then map_option (\<lambda>_. v) (map_of m k) else map_of m k')"
proof (induction m)
  case Nil
  show ?case by simp
next
  case (Cons e m)
  obtain a b where e: "e = (a, b)" by (cases e)
  show ?case
  proof (cases "a = k")
    case True
    with Cons e show ?thesis by (cases "k' = k") simp_all
  next
    case False
    with Cons e show ?thesis by (cases "k' = k") simp_all
  qed
qed

lemma map_of_mapSet: "map_of (mapSet m k v) k' = (if k' = k then Some v else map_of m k')"
proof (cases "k \<in> fst ` set m")
  case True
  then obtain x where "map_of m k = Some x"
    by (cases "map_of m k") (simp_all add: map_of_eq_None_iff)
  with True show ?thesis by (simp add: mapSet_def map_of_replace)
next
  case False
  then have "map_of m k = None" by (simp add: map_of_eq_None_iff)
  with False show ?thesis by (simp add: mapSet_def map_add_def split: option.splits)
qed

lemma fst_replace: "map fst (map (\<lambda>e. if fst e = k then (k, v) else e) m) = map fst m"
  by (induction m) simp_all

lemma fst_mapSet:
  "map fst (mapSet m k v) = (if k \<in> fst ` set m then map fst m else map fst m @ [k])"
  by (simp add: mapSet_def fst_replace del: map_map)

lemma set_mapSet: "e \<in> set (mapSet m k v) \<Longrightarrow> e \<in> set m \<or> e = (k, v)"
  by (cases "k \<in> fst ` set m") (auto simp: mapSet_def split: if_splits)

lemma wellFormed_mapSet:
  assumes "wellFormed m" and "sd_name d = k"
  shows "wellFormed (mapSet m k d)"
proof -
  from assms(1) have "distinct (map fst (mapSet m k d))"
    by (auto simp: fst_mapSet wellFormed_def)
  moreover have "sd_name d' = k'" if "(k', d') \<in> set (mapSet m k d)" for k' d'
  proof -
    from that have "(k', d') \<in> set m \<or> (k', d') = (k, d)"
      by (rule set_mapSet)
    with assms show ?thesis by (auto simp: wellFormed_def)
  qed
  then have "\<forall>(k', d')\<in>set (mapSet m k d). sd_name d' = k'" by auto
  ultimately show ?thesis by (simp add: wellFormed_def)
qed

lemma wellFormed_lookup: "wellFormed m \<Longrightarrow> map_of m k = Some d \<Longrightarrow> sd_name d = k"
  by (auto simp: wellFormed_def dest: map_of_SomeD)

lemma wellFormed_processPart:
  "wellFormed (fst st) \<Longrightarrow> wellFormed (fst (processPart v tm i st part))"
  by (cases part)
    (auto simp: processPart_def Let_def wellFormed_lookup intro!: wellFormed_mapSet
      split: option.splits)

lemma loadedContents_single:
  "loadedContents s [part] =
     (case invocationOutput s part of
        None \<Rightarrow> []
      | Some out \<Rightarrow> if trim out = [] then [] else [trim out])"
  by (simp add: loadedContents_def skillOutputs_def split: option.splits)

lemma loadedContents_Cons:
  "loadedContents s (part # ps) = loadedContents s [part] @ loadedContents s ps"
  by (simp add: loadedContents_def skillOutputs_def)

lemma loadedContents_append:
  "loadedContents s (ps @ qs) = loadedContents s ps @ loadedContents s qs"
  by (simp add: loadedContents_def skillOutputs_def)

lemma view_processPart:
  assumes "s \<noteq> []"
  shows "view s (processPart v tm i st part) = counted v tm s (loadedContents s [part]) (view s st)"
proof (cases part)
  case (ToolPart tool state)
  show ?thesis
  proof (cases "tool = ''skill'' \<and> ts_status state = StatusCompleted")
    case False
    then show ?thesis
      using ToolPart
      by (auto simp: processPart_def loadedContents_single invocationOutput_def counted_def
          view_def Let_def split: option.splits)
  next
    case True
    show ?thesis
    proof (cases "extractSkillName state")
      case None
      with True ToolPart show ?thesis
        by (auto simp: processPart_def loadedContents_single invocationOutput_def counted_def
            view_def Let_def split: option.splits)
    next
      case (Some n)
      show ?thesis
      proof (cases "n = s")
        case False
        with True ToolPart Some show ?thesis
          by (auto simp: processPart_def loadedContents_single invocationOutput_def counted_def
              view_def Let_def map_of_mapSet split: option.splits)
      next
        case same: True
        with True ToolPart Some assms show ?thesis
          by (auto simp: processPart_def loadedContents_single invocationOutput_def counted_def
              view_def Let_def map_of_mapSet split: option.splits)
      qed
    qed
  qed
qed (simp_all add: processPart_def loadedContents_single invocationOutput_def counted_def
    view_def Let_def split: option.splits)

lemma counted_append: "counted v tm s (cs @ ds) w = counted v tm s ds (counted v tm s cs w)"
  by (cases w; cases "fst w"; cases cs) (auto simp: counted_def)

lemma counted_Nil: "counted v tm s [] w = w"
  by (cases w; cases "fst w") (auto simp: counted_def)

lemma view_parts:
  assumes "s \<noteq> []"
  shows "view s (foldl (processPart v tm i) st ps) = counted v tm s (loadedContents s ps) (view s st)"
proof (induction ps arbitrary: st)
  case Nil
  show ?case
    by (simp add: loadedContents_def skillOutputs_def counted_Nil)
next
  case (Cons p ps)
  have "view s (foldl (processPart v tm i) (processPart v tm i st p) ps) =
      counted v tm s (loadedContents s ps) (counted v tm s (loadedContents s [p]) (view s st))"
    by (simp only: Cons.IH view_processPart [OF assms])
  then show ?case
    by (simp add: counted_append [symmetric] loadedContents_Cons [of s p ps])
qed

lemma view_messages:
  assumes "s \<noteq> []"
  shows "view s (processMessages v tm messages i st) =
           counted v tm s (loadedContents s (allParts messages)) (view s st)"
proof (induction messages arbitrary: i st)
  case Nil
  show ?case
    by (simp add: allParts_def loadedContents_def skillOutputs_def counted_Nil)
next
  case (Cons message rest)
  show ?case
    by (simp add: Let_def Cons.IH view_parts [OF assms] allParts_def loadedContents_append
        counted_append)
qed

lemma wellFormed_parts:
  "wellFormed (fst st) \<Longrightarrow> wellFormed (fst (foldl (processPart v tm i) st ps))"
  by (induction ps arbitrary: st) (simp_all add: wellFormed_processPart)

lemma wellFormed_messages:
  "wellFormed (fst st) \<Longrightarrow> wellFormed (fst (processMessages v tm messages i st))"
  by (induction messages arbitrary: i st) (simp_all add: Let_def wellFormed_parts)

lemma filter_key:
  "distinct (map fst m) \<Longrightarrow>
   filter (\<lambda>e. fst e = s) m = (case map_of m s of None \<Rightarrow> [] | Some d \<Rightarrow> [(s, d)])"
proof (induction m)
  case Nil
  show ?case by simp
next
  case (Cons e m)
  obtain a b where e: "e = (a, b)" by (cases e)
  show ?case
  proof (cases "a = s")
    case True
    with Cons.prems e have "s \<notin> fst ` set m" by simp
    then have "filter (\<lambda>e. fst e = s) m = []"
      by (auto simp: filter_empty_conv)
    with True e show ?thesis by simp
  next
    case False
    with Cons e show ?thesis by simp
  qed
qed

lemma filter_name:
  assumes "wellFormed m"
  shows "filter (\<lambda>e. ls_name e = s) (map (\<lambda>(k, skillData). toLoadedSkill skillData) m) =
           (case map_of m s of None \<Rightarrow> [] | Some d \<Rightarrow> [toLoadedSkill d])"
proof -
  from assms have names: "\<forall>e\<in>set m. sd_name (snd e) = fst e"
    by (auto simp: wellFormed_def)
  have "filter (\<lambda>e. ls_name e = s) (map (\<lambda>(k, skillData). toLoadedSkill skillData) m) =
      map (\<lambda>(k, skillData). toLoadedSkill skillData) (filter (\<lambda>e. sd_name (snd e) = s) m)"
    by (simp add: filter_map o_def toLoadedSkill_def split_def)
  also from names have "filter (\<lambda>e. sd_name (snd e) = s) m = filter (\<lambda>e. fst e = s) m"
    by (intro filter_cong) simp_all
  also from assms have "\<dots> = (case map_of m s of None \<Rightarrow> [] | Some d \<Rightarrow> [(s, d)])"
    by (intro filter_key) (simp add: wellFormed_def)
  finally show ?thesis by (simp split: option.splits)
qed

text \<open>
  Claim C5, as stated, fails where an output has surrounding white space: the output
  \<open>abcd\<close> followed by a space counts 2 tokens under the approx spec, but the skill is
  entered with the 1 token of the trimmed content.
\<close>

theorem skill_multiplier_counterexample:
  "spec_nonEmptyOutputs ''research'' trailingTranscript = [''abcd ''] \<and>
   map ls_tokens (entriesFor ''research''
        (fst (getLoadedSkills failingVendor trailingTranscript approxModel))) = [1] \<and>
   tokenCount failingVendor ''abcd '' approxModel = 2"
  by (simp add: skill_eval spec_nonEmptyOutputs_def skillOutputs_def invocationOutput_def
      entriesFor_def trailingTranscript_def approxModel_def)

text \<open>
  Claim C5, amended. For every transcript in which a skill named \<open>s\<close> has \<open>k \<ge> 1\<close>
  completed invocations of the skill-loading tool whose output is not empty after trimming,
  the loaded skills have exactly one entry for \<open>s\<close>; its \<open>tokensPerCall\<close> is the token count
  of the trimmed output of the first of these invocations, its call count is \<open>k\<close>, and its
  \<open>totalTokens\<close> is \<open>tokensPerCall \<times> k\<close>. The tokenizer is called exactly once for \<open>s\<close>,
  on that trimmed output.
\<close>

theorem skill_multiplier:
  assumes "s \<noteq> []"
    and "loadedContents s (allParts messages) = c # cs"
  shows "(\<exists>e. entriesFor s (fst (getLoadedSkills v messages tokenModel)) = [e] \<and>
              ls_tokens e = tokenCount v c tokenModel \<and>
              ls_callCount e = 1 + int (length cs) \<and>
              ls_totalTokens e = ls_tokens e * ls_callCount e) \<and>
         callsFor s (tokenizerCalls v messages tokenModel) = [(s, c)]"
proof -
  define st where "st = processMessages v tokenModel messages 0 ([], [])"
  define m where "m = fst st"
  have wf: "wellFormed m"
    unfolding m_def st_def by (rule wellFormed_messages) (simp add: wellFormed_def)
  have "view s st = counted v tokenModel s (c # cs) (view s ([], []))"
    unfolding st_def
    using view_messages [OF assms(1), of v tokenModel messages 0 "([], [])"] assms(2)
    by simp
  then have v: "view s st = (Some (tokenCount v c tokenModel, 1 + int (length cs)), [(s, c)])"
    by (simp add: counted_def view_def)
  then obtain d where d: "map_of m s = Some d" "sd_tokens d = tokenCount v c tokenModel"
    "sd_callCount d = 1 + int (length cs)"
    by (auto simp: view_def m_def)
  have "filter (\<lambda>e. ls_name e = s) (fst (getLoadedSkills v messages tokenModel)) =
      sort_key (\<lambda>skill. - ls_totalTokens skill)
        (filter (\<lambda>e. ls_name e = s) (map (\<lambda>(k, skillData). toLoadedSkill skillData) m))"
    by (simp add: getLoadedSkills_def Let_def m_def st_def filter_sort)
  also have "\<dots> = [toLoadedSkill d]"
    by (simp add: filter_name [OF wf] d(1))
  finally have "filter (\<lambda>e. ls_name e = s) (fst (getLoadedSkills v messages tokenModel)) =
      [toLoadedSkill d]" .
  moreover have "ls_tokens (toLoadedSkill d) = tokenCount v c tokenModel"
    and "ls_callCount (toLoadedSkill d) = 1 + int (length cs)"
    and "ls_totalTokens (toLoadedSkill d) = ls_tokens (toLoadedSkill d) * ls_callCount (toLoadedSkill d)"
    using d by (simp_all add: toLoadedSkill_def)
  moreover from v have "filter (\<lambda>call. fst call = s) (tokenizerCalls v messages tokenModel) = [(s, c)]"
    by (simp add: view_def tokenizerCalls_def st_def)
  ultimately show ?thesis unfolding entriesFor_def callsFor_def by blast
qed

theorem skill_multiplier_witness:
  "''research'' \<noteq> [] \<and>
   loadedContents ''research'' (allParts scenarioC) =
     [''Search first.'', ''Search first.'', ''Search first.''] \<and>
   (\<exists>e. entriesFor ''research'' (fst (getLoadedSkills countingVendor scenarioC gpt4Model)) = [e] \<and>
        ls_tokens e = 120 \<and> ls_callCount e = 3 \<and> ls_totalTokens e = 360) \<and>
   callsFor ''research'' (tokenizerCalls countingVendor scenarioC gpt4Model) =
     [(''research'', ''Search first.'')]"
proof -
  have n: "''research'' \<noteq> []" by simp
  have l: "loadedContents ''research'' (allParts scenarioC) =
     [''Search first.'', ''Search first.'', ''Search first.'']"
    by (simp add: skill_eval loadedContents_def skillOutputs_def invocationOutput_def
        scenarioC_def)
  have t: "tokenCount countingVendor ''Search first.'' gpt4Model = 120"
    by (simp add: skill_eval countingVendor_def gpt4Model_def)
  note r = skill_multiplier [OF n l, of countingVendor gpt4Model]
  from r obtain e where "entriesFor ''research''
        (fst (getLoadedSkills countingVendor scenarioC gpt4Model)) = [e]"
    and "ls_tokens e = tokenCount countingVendor ''Search first.'' gpt4Model"
    and "ls_callCount e = 1 + int (length [''Search first.'', ''Search first.''])"
    and "ls_totalTokens e = ls_tokens e * ls_callCount e"
    by blast
  with t have "entriesFor ''research''
        (fst (getLoadedSkills countingVendor scenarioC gpt4Model)) = [e] \<and>
        ls_tokens e = 120 \<and> ls_callCount e = 3 \<and> ls_totalTokens e = 360"
    by simp
  with n l r show ?thesis by blast
qed


section \<open>Tokenizer load coalescing\<close>

lemmas loader_eval = runLoader_def loaderStep_def countTokens_call_def loadTiktokenEncoder_call_def
  loadTiktokenEncoder_resume_def loadTiktokenModule_def newLoader_def countingVendor_def
  gpt4Model_def trim_def isWhiteSpace_def Let_def

text \<open>
  Claim C9 fails on the code. Five first calls of \<open>countTokens\<close> for the model \<open>gpt-4\<close>, all
  made before any of them is resumed, load the encoder five times, once per call, while
  the module is imported once: the cache is written only after the load, whereas
  \<open>loadTiktokenModule\<close> keeps the promise of the import. Calls made after a first call has
  finished find the encoder in the cache.
\<close>

theorem encoder_loads_not_coalesced:
  "encoderLoads (runLoader countingVendor fiveFirstCalls) =
     [''gpt-4'', ''gpt-4'', ''gpt-4'', ''gpt-4'', ''gpt-4''] \<and>
   moduleImports (runLoader countingVendor fiveFirstCalls) = 1 \<and>
   map snd (loaderCalls (runLoader countingVendor fiveFirstCalls)) =
     [Returned, Returned, Returned, Returned, Returned] \<and>
   encoderLoads (runLoader countingVendor oneAfterAnother) = [''gpt-4''] \<and>
   map snd (loaderCalls (runLoader countingVendor oneAfterAnother)) =
     [Returned, Returned, Returned]"
  by (simp add: loader_eval fiveFirstCalls_def oneAfterAnother_def)

text \<open>The same for any number of first calls for one model: as many loads as calls.\<close>

lemma calls_afterCalls:
  assumes "trim content \<noteq> []" and "tm_spec tokenModel = Tiktoken m"
  shows "foldl (loaderStep v) newLoader (replicate n (CountTokens content tokenModel)) =
           afterCalls m n 0"
proof (induction n)
  case 0
  show ?case by (simp add: afterCalls_def newLoader_def)
next
  case (Suc n)
  have "foldl (loaderStep v) newLoader (replicate (Suc n) (CountTokens content tokenModel)) =
      loaderStep v (foldl (loaderStep v) newLoader (replicate n (CountTokens content tokenModel)))
        (CountTokens content tokenModel)"
  proof -
    have "replicate (Suc n) (CountTokens content tokenModel) =
        replicate n (CountTokens content tokenModel) @ [CountTokens content tokenModel]"
      by (simp add: replicate_append_same)
    then show ?thesis by (simp only: foldl_append foldl.simps)
  qed
  also have "\<dots> = loaderStep v (afterCalls m n 0) (CountTokens content tokenModel)"
    by (simp only: Suc.IH)
  also have "\<dots> = afterCalls m (Suc n) 0"
    using assms
    by (simp add: loaderStep_def countTokens_call_def loadTiktokenEncoder_call_def
        loadTiktokenModule_def afterCalls_def replicate_append_same)
  finally show ?case .
qed

lemma resume_afterCalls:
  assumes "loadTiktokenEncoder v m = TiktokenEncoder encode" and "j < n"
  shows "loadTiktokenEncoder_resume v j (afterCalls m n j) = afterCalls m n (Suc j)"
proof -
  from assms(2) obtain k where k: "n - j = Suc k" and k': "n - Suc j = k"
    by (cases "n - j") auto
  have len: "j < length (loaderCalls (afterCalls m n j))"
    using assms(2) by (simp add: afterCalls_def)
  have nth: "loaderCalls (afterCalls m n j) ! j = (m, AwaitingModule)"
    by (simp add: afterCalls_def nth_append k)
  have upd: "(loaderCalls (afterCalls m n j))[j := (m, Returned)] =
      replicate (Suc j) (m, Returned) @ replicate (n - Suc j) (m, AwaitingModule)"
    by (simp add: afterCalls_def list_update_append k k' replicate_append_same)
  show ?thesis
    unfolding loadTiktokenEncoder_resume_def Let_def
    using len nth upd assms(1)
    by (simp add: afterCalls_def replicate_append_same)
qed

lemma resumes_afterCalls:
  assumes "loadTiktokenEncoder v m = TiktokenEncoder encode" and "j \<le> n"
  shows "foldl (loaderStep v) (afterCalls m n 0) (map Resume [0..<j]) = afterCalls m n j"
  using assms(2)
proof (induction j)
  case 0
  show ?case by simp
next
  case (Suc j)
  then have "foldl (loaderStep v) (afterCalls m n 0) (map Resume [0..<j]) = afterCalls m n j"
    and "j < n" by simp_all
  then have "foldl (loaderStep v) (afterCalls m n 0) (map Resume [0..<Suc j]) =
      loaderStep v (afterCalls m n j) (Resume j)"
    by simp
  also have "\<dots> = afterCalls m n (Suc j)"
    using \<open>j < n\<close> by (simp add: loaderStep_def resume_afterCalls [OF assms(1)])
  finally show ?case .
qed

lemma concurrent_first_calls:
  assumes "trim content \<noteq> []" and "tm_spec tokenModel = Tiktoken m"
    and "loadTiktokenEncoder v m = TiktokenEncoder encode"
  shows "encoderLoads (runLoader v (replicate n (CountTokens content tokenModel) @ map Resume [0..<n]))
           = replicate n m \<and>
         moduleImports (runLoader v (replicate n (CountTokens content tokenModel) @ map Resume [0..<n]))
           = (if n = 0 then 0 else 1)"
proof -
  have "runLoader v (replicate n (CountTokens content tokenModel) @ map Resume [0..<n]) =
      afterCalls m n n"
    by (simp add: runLoader_def calls_afterCalls [OF assms(1,2)] resumes_afterCalls [OF assms(3)])
  then show ?thesis by (simp add: afterCalls_def)
qed

section \<open>Subscription detection\<close>

text \<open>
  Claim C7. For every analysis result and every pricing catalog, \<open>calculateCost\<close> sets
  \<open>isSubscription\<close> exactly when the session has at least one assistant message, a
  positive input or output token total, and a provider-reported session cost of exactly 0.
\<close>

theorem calculateCost_isSubscription:
  "isSubscription (calculateCost pricingData analysis) =
     (assistantMessageCount analysis > 0 \<and>
      (inputTokens analysis > 0 \<or> outputTokens analysis > 0) \<and>
      sessionCost analysis = 0)"
  by (simp add: calculateCost_def Let_def)

end
